theory Spec2Isabelle
  imports Complex_Main
begin

section \<open>Text\<close>

text \<open>
  A Python \<open>str\<close> is modelled as a \<^typ>\<open>string\<close>, a list of 8-bit characters. A character
  below 128 is the ASCII character of that code. Characters from 128 on occur only in the
  UTF-8 encoding of the symbols of the source's own literals (the rupee sign of the value
  pattern, the rules and bullets of the reports); like those symbols in Python they are
  neither letters, digits, white space nor word characters, and \<open>lower\<close>/\<open>upper\<close> leave
  them alone. The case mappings and character classes of Python on other code points above
  127 are outside this model.
\<close>

definition ord :: "char \<Rightarrow> int" where
  "ord c = of_char c"

definition isupper :: "char \<Rightarrow> bool" where
  "isupper c = (65 \<le> ord c \<and> ord c \<le> 90)"

definition islower :: "char \<Rightarrow> bool" where
  "islower c = (97 \<le> ord c \<and> ord c \<le> 122)"

definition isdigit :: "char \<Rightarrow> bool" where
  "isdigit c = (48 \<le> ord c \<and> ord c \<le> 57)"

text \<open>\<open>str.isspace\<close> on ASCII: tab, line feed, vertical tab, form feed, carriage return,
  the four separators 28 to 31, and the space.\<close>

definition isspace :: "char \<Rightarrow> bool" where
  "isspace c = ((9 \<le> ord c \<and> ord c \<le> 13) \<or> (28 \<le> ord c \<and> ord c \<le> 32))"

definition lower_char :: "char \<Rightarrow> char" where
  "lower_char c = (if isupper c then char_of (ord c + 32) else c)"

definition upper_char :: "char \<Rightarrow> char" where
  "upper_char c = (if islower c then char_of (ord c - 32) else c)"

definition lower :: "string \<Rightarrow> string" where
  "lower s = map lower_char s"

definition upper :: "string \<Rightarrow> string" where
  "upper s = map upper_char s"

text \<open>\<open>s.strip()\<close>: white space removed at both ends.\<close>

definition strip :: "string \<Rightarrow> string" where
  "strip s = rev (dropWhile isspace (rev (dropWhile isspace s)))"

text \<open>\<open>sep.join(xs)\<close>.\<close>

fun join :: "string \<Rightarrow> string list \<Rightarrow> string" where
  "join sep [] = []"
| "join sep [x] = x"
| "join sep (x # y # ys) = x @ sep @ join sep (y # ys)"

fun startswith :: "string \<Rightarrow> string \<Rightarrow> bool" where
  "startswith t [] = True"
| "startswith [] (k # ks) = False"
| "startswith (c # cs) (k # ks) = (c = k \<and> startswith cs ks)"

text \<open>\<open>kw in t\<close> on strings: \<open>kw\<close> occurs in \<open>t\<close> as a contiguous substring.\<close>

fun is_in :: "string \<Rightarrow> string \<Rightarrow> bool" where
  "is_in kw [] = (kw = [])"
| "is_in kw (c # cs) = (startswith (c # cs) kw \<or> is_in kw cs)"

text \<open>\<open>sum(1 for kw in keywords if kw in t)\<close>: the number of keywords of the list that
  occur in the text (a keyword counts once, however often it occurs).\<close>

definition match_count :: "string list \<Rightarrow> string \<Rightarrow> nat" where
  "match_count keywords t = length (filter (\<lambda>kw. is_in kw t) keywords)"


section \<open>SmartClassifierAgent\<close>

text \<open>The dict \<open>case_keywords\<close>, in its insertion order.\<close>

definition case_keywords :: "(string \<times> string list) list" where
  "case_keywords =
    [(''criminal'', [''theft'', ''stolen'', ''robbery'', ''assault'', ''murder'', ''rape'',
        ''dacoity'', ''fir'', ''police'', ''crime'', ''burglar'', ''pickpocket'', ''extortion'',
        ''blackmail'']),
     (''family'', [''divorce'', ''marriage'', ''custody'', ''alimony'', ''maintenance'',
        ''dowry'', ''wife'', ''husband'', ''domestic'', ''separation'', ''child'', ''guardian'']),
     (''property'', [''land'', ''boundary'', ''inheritance'', ''encroachment'', ''tenant'',
        ''landlord'', ''eviction'', ''deed'', ''title'', ''plot'', ''mutation'']),
     (''contract'', [''agreement'', ''breach'', ''contract'', ''payment'', ''outstanding'',
        ''invoice'', ''debt'', ''loan'', ''delivery'', ''default''])]"

text \<open>The dict \<open>scores\<close> built by the loop of \<open>initial_classify\<close>: one entry per case type,
  in the order of \<open>case_keywords\<close>.\<close>

definition classify_scores :: "string \<Rightarrow> (string \<times> nat) list" where
  "classify_scores q = map (\<lambda>(case_type, keywords). (case_type, match_count keywords q)) case_keywords"

text \<open>\<open>max(scores.values())\<close>, and \<open>max(scores, key=scores.get)\<close> together with the score
  it selects: Python's \<open>max\<close> keeps the first maximal element, replacing the running best
  only by a strictly greater one.\<close>

fun max_value :: "nat \<Rightarrow> nat list \<Rightarrow> nat" where
  "max_value best [] = best"
| "max_value best (v # vs) = max_value (if best < v then v else best) vs"

fun max_key :: "(string \<times> nat) \<Rightarrow> (string \<times> nat) list \<Rightarrow> (string \<times> nat)" where
  "max_key best [] = best"
| "max_key best (kv # kvs) = max_key (if snd best < snd kv then kv else best) kvs"

text \<open>The confidence is a Python float; it is modelled by the exact quotient.\<close>

definition initial_classify :: "string \<Rightarrow> string \<times> real" where
  "initial_classify query =
    (let q = lower query;
         scores = classify_scores q
     in if max_value (snd (hd scores)) (map snd (tl scores)) = 0 then (''general'', 1 / 2)
        else let (best_type, best_score) = max_key (hd scores) (tl scores);
                 confidence = min (real best_score / 5) 1
             in (best_type, confidence))"


section \<open>AdaptiveQuestionGenerator: the offense subtype\<close>

definition OFFENSE_KEYWORDS :: "(string \<times> string list) list" where
  "OFFENSE_KEYWORDS =
    [(''murder'', [''murder'', ''killed'', ''homicide'', ''stabbed'', ''shot'', ''strangled'',
        ''burned'', ''ipc 302'', ''302'']),
     (''theft'', [''theft'', ''stolen'', ''pickpocket'', ''burglary'', ''phone was stolen'',
        ''ipc 379'', ''379'']),
     (''robbery'', [''robbery'', ''dacoity'', ''snatched'', ''armed'', ''weapon'', ''force'',
        ''ipc 392'', ''392'', ''395'', ''396'']),
     (''assault'', [''assault'', ''beat'', ''injury'', ''attack'', ''fight'', ''ipc 323'',
        ''324'', ''325'', ''326''])]"

text \<open>The loop of \<open>detect_crime_subtype\<close> over the remaining entries, carrying
  \<open>best\<close> and \<open>best_score\<close>.\<close>

fun subtype_loop :: "string \<Rightarrow> (string \<times> string list) list \<Rightarrow> string \<times> nat \<Rightarrow> string \<times> nat" where
  "subtype_loop t [] (best, best_score) = (best, best_score)"
| "subtype_loop t ((subtype, keywords) # rest) (best, best_score) =
     (let score = match_count keywords t
      in if score > best_score then subtype_loop t rest (subtype, score)
         else subtype_loop t rest (best, best_score))"

definition detect_crime_subtype :: "string \<Rightarrow> string" where
  "detect_crime_subtype text = fst (subtype_loop (lower text) OFFENSE_KEYWORDS (''theft'', 0))"

text \<open>The subtypes and the case types in declaration order, and the score of one of them
  on a text, as the loops compute it: the vocabulary in which the selection is specified.\<close>

definition subtype_score :: "string \<Rightarrow> string \<Rightarrow> nat" where
  "subtype_score text subtype =
     (case map_of OFFENSE_KEYWORDS subtype of
        Some keywords \<Rightarrow> match_count keywords (lower text)
      | None \<Rightarrow> 0)"

definition offense_subtypes :: "string list" where
  "offense_subtypes = map fst OFFENSE_KEYWORDS"

definition case_types :: "string list" where
  "case_types = map fst case_keywords"

definition case_score :: "string \<Rightarrow> string \<Rightarrow> nat" where
  "case_score query case_type =
     (case map_of case_keywords case_type of
        Some keywords \<Rightarrow> match_count keywords (lower query)
      | None \<Rightarrow> 0)"



section \<open>KnowledgeGraph\<close>

text \<open>
  \<open>entities\<close> is a \<open>defaultdict(list)\<close>: the entity types in insertion order, each with its
  list of values. \<open>kg_context\<close> is the dict \<open>context\<close>, from key to string. The field \<open>relations\<close> of the
  class is initialised to the empty list and never read or written; it is left out.
\<close>

record knowledge_graph =
  entities :: "(string \<times> string list) list"
  kg_context :: "string \<rightharpoonup> string"

text \<open>\<open>KnowledgeGraph()\<close>.\<close>

definition new_kg :: knowledge_graph where
  "new_kg = \<lparr>entities = [], kg_context = Map.empty\<rparr>"

text \<open>\<open>d.get(k, [])\<close> on the entities, which is also what \<open>d[k]\<close> reads on a defaultdict.\<close>

definition entities_get :: "(string \<times> string list) list \<Rightarrow> string \<Rightarrow> string list" where
  "entities_get es k = (case map_of es k of Some vs \<Rightarrow> vs | None \<Rightarrow> [])"

text \<open>Storing under a key: an existing key keeps its place, a new key goes last.\<close>

fun dict_set :: "('k \<times> 'v) list \<Rightarrow> 'k \<Rightarrow> 'v \<Rightarrow> ('k \<times> 'v) list" where
  "dict_set [] k v = [(k, v)]"
| "dict_set ((k', v') # es) k v = (if k' = k then (k, v) # es else (k', v') # dict_set es k v)"

text \<open>
  \<open>add_entity\<close>: the membership test is on \<open>value\<close> as given, the value appended is
  \<open>value.strip()\<close>. The list is read, and on a defaultdict created, only when the first two
  conjuncts hold; a list that is created receives the value at once.
\<close>

definition add_entity :: "knowledge_graph \<Rightarrow> string \<Rightarrow> string \<Rightarrow> knowledge_graph" where
  "add_entity kg entity_type v =
     (if v \<noteq> [] \<and> strip v \<noteq> [] \<and> v \<notin> set (entities_get (entities kg) entity_type)
      then kg\<lparr>entities := dict_set (entities kg) entity_type
                  (entities_get (entities kg) entity_type @ [strip v])\<rparr>
      else kg)"

definition set_context :: "knowledge_graph \<Rightarrow> string \<Rightarrow> string \<Rightarrow> knowledge_graph" where
  "set_context kg k v = kg\<lparr>kg_context := (kg_context kg)(k \<mapsto> v)\<rparr>"

text \<open>\<open>kg.context.get(k, default)\<close>.\<close>

definition context_get :: "knowledge_graph \<Rightarrow> string \<Rightarrow> string \<Rightarrow> string" where
  "context_get kg k dflt = (case kg_context kg k of Some v \<Rightarrow> v | None \<Rightarrow> dflt)"


section \<open>AdaptiveQuestionGenerator: the next question\<close>

text \<open>\<open>QUESTION_TEMPLATES\<close>: for each template set its topics in declaration order, each with
  its questions.\<close>

definition QUESTION_TEMPLATES :: "(string \<times> (string \<times> string list) list) list" where
  "QUESTION_TEMPLATES =
    [(''murder'',
       [(''time'', [''When did the incident occur?'', ''Approximate time of death known?'']),
        (''location'', [''Where did the incident happen?'', ''Where was the body found?'']),
        (''relationship'', [''What was the relationship between accused and victim?'',
           ''Any prior dispute?'']),
        (''weapon'', [''What weapon was used? (knife/firearm/blunt object)'',
           ''Was the weapon recovered?'']),
        (''evidence'', [''Post-mortem report available?'', ''Any CCTV or eyewitnesses?'']),
        (''police'', [''FIR filed? Which police station?'', ''Any arrests made?''])]),
     (''robbery'',
       [(''time'', [''When did the robbery occur?'']),
        (''location'', [''Where exactly did it happen? (street / shop / home)'']),
        (''force'', [''Was a weapon or threat used?'', ''Any injuries?'']),
        (''property'', [''What items or money were taken?'']),
        (''evidence'', [''Any CCTV or witnesses?'', ''Police informed? FIR filed?''])]),
     (''theft'',
       [(''time'', [''When was the item last seen?'', ''When did you notice it missing?'']),
        (''location'', [''Where was the theft location?'']),
        (''property'', [''What item was stolen? (model/serial/IMEI)'']),
        (''evidence'', [''CCTV or witnesses?'', ''Proof of ownership available?'']),
        (''police'', [''FIR filed? Which station?''])]),
     (''assault'',
       [(''time'', [''When did the assault occur?'']),
        (''location'', [''Where did it happen?'']),
        (''injury'', [''What injuries occurred? Medical report available?'']),
        (''cause'', [''Was there a dispute or trigger?'']),
        (''evidence'', [''CCTV or witnesses?'', ''Any hospital or police report?''])]),
     (''property'',
       [(''type'', [''What type of property dispute? (land/house/inheritance/tenant)'']),
        (''location'', [''Where is the property located? (address/survey number)'']),
        (''ownership'', [''Do you have ownership documents? (sale deed/title deed)'']),
        (''dispute'', [''What is the exact nature of the dispute?'']),
        (''timeline'', [''When did the dispute start?'']),
        (''parties'', [''Who are the other parties involved?'']),
        (''documents'', [''Do you have: mutation records, property tax receipts, court orders?''])]),
     (''family'',
       [(''type'', [''What is the family matter? (divorce/custody/maintenance/inheritance)'']),
        (''marriage'', [''When and where did the marriage take place?'']),
        (''duration'', [''How long have you been married/separated?'']),
        (''children'', [''Do you have children? If yes, their ages?'']),
        (''grounds'', [''What are the grounds for divorce/dispute?'']),
        (''attempts'', [''Have you tried mediation or counseling?'']),
        (''documents'', [''Do you have: marriage certificate, proof of income, other relevant documents?''])]),
     (''contract'',
       [(''type'', [''What type of agreement? (sale/loan/service/employment)'']),
        (''date'', [''When was the contract signed?'']),
        (''amount'', [''What is the contract value/amount involved?'']),
        (''breach'', [''How has the contract been breached?'']),
        (''timeline'', [''When did the breach occur?'']),
        (''written'', [''Do you have a written agreement?'']),
        (''remedy'', [''What remedy are you seeking? (refund/specific performance/damages)''])]),
     (''general'',
       [(''issue'', [''Please describe your legal issue in detail'']),
        (''parties'', [''Who are the parties involved?'']),
        (''timeline'', [''When did this issue arise?'']),
        (''documents'', [''Do you have any relevant documents?'']),
        (''urgency'', [''Is this matter urgent?''])])]"

text \<open>\<open>QUESTION_TEMPLATES.get(key, QUESTION_TEMPLATES[fallback])\<close>; the fallback keys of the
  source, \<open>theft\<close> and \<open>general\<close>, are keys of the table.\<close>

definition templates_get :: "string \<Rightarrow> string \<Rightarrow> (string \<times> string list) list" where
  "templates_get key fallback =
     (case map_of QUESTION_TEMPLATES key of
        Some templates \<Rightarrow> templates
      | None \<Rightarrow> (case map_of QUESTION_TEMPLATES fallback of Some templates \<Rightarrow> templates | None \<Rightarrow> []))"

text \<open>The first part of \<open>generate_next\<close>: which template set to use.
  \<open>kg.context.get('criminal_subtype') or detect_crime_subtype(situation)\<close> takes the stored
  subtype unless it is missing or the empty string.\<close>

definition resolve_templates :: "string \<Rightarrow> knowledge_graph \<Rightarrow> (string \<times> string list) list" where
  "resolve_templates case_type kg =
     (let situation = context_get kg ''situation'' []
      in if case_type = ''criminal''
         then let subtype = (case kg_context kg ''criminal_subtype'' of
                               Some s \<Rightarrow> if s \<noteq> [] then s else detect_crime_subtype situation
                             | None \<Rightarrow> detect_crime_subtype situation)
              in templates_get subtype ''theft''
         else templates_get case_type ''general'')"

text \<open>The loop of \<open>generate_next\<close> over the topics: the first topic with a question that is
  not in \<open>asked\<close> gives its first such question.\<close>

fun question_loop :: "(string \<times> string list) list \<Rightarrow> string list \<Rightarrow> string option" where
  "question_loop [] asked = None"
| "question_loop ((category, questions) # rest) asked =
     (case filter (\<lambda>q. q \<notin> set asked) questions of
        [] \<Rightarrow> question_loop rest asked
      | q # _ \<Rightarrow> Some q)"

definition generate_next :: "string \<Rightarrow> knowledge_graph \<Rightarrow> string list \<Rightarrow> string option" where
  "generate_next case_type kg asked = question_loop (resolve_templates case_type kg) asked"

text \<open>All questions of a template set, topic by topic in declaration order.\<close>

definition all_questions :: "(string \<times> string list) list \<Rightarrow> string list" where
  "all_questions templates = concat (map snd templates)"

text \<open>Asking up to \<open>n\<close> times in a row for the same case type and graph, each question
  returned being recorded in the asked list before the next call, as a session does.\<close>

fun ask_repeatedly :: "nat \<Rightarrow> string \<Rightarrow> knowledge_graph \<Rightarrow> string list \<Rightarrow> string list" where
  "ask_repeatedly 0 case_type kg asked = asked"
| "ask_repeatedly (Suc n) case_type kg asked =
     (case generate_next case_type kg asked of
        None \<Rightarrow> asked
      | Some q \<Rightarrow> ask_repeatedly n case_type kg (asked @ [q]))"


section \<open>Regular expressions: \<open>re.findall\<close>\<close>

text \<open>
  The four patterns of \<open>extract\<close> are built from character classes, literals, sequence,
  alternation, greedy repetition and the word boundary \<open>\b\<close>, and have no capturing group,
  so that \<open>re.findall\<close> returns the matched substrings. The matcher is the backtracking
  matcher of the module \<open>re\<close>: \<open>ends r cur\<close> lists, in the order in which backtracking
  tries them, the positions at which a match of \<open>r\<close> starting at \<open>cur\<close> can end; the
  match found is the first of them. A position in the text is a cursor: the character
  before it, if any, and the text from it on.
\<close>

type_synonym cursor = "char option \<times> string"

datatype regex =
    Chr char
  | ChrI char
  | Class "char \<Rightarrow> bool"
  | Boundary
  | Seq "regex list"
  | Alt "regex list"
  | Rep nat nat regex
  | Many nat regex

text \<open>
  \<open>Chr c\<close> is the literal character, \<open>ChrI c\<close> the literal character under
  \<open>re.IGNORECASE\<close>, \<open>Rep lo hi r\<close> is \<open>r{lo,hi}\<close> (so \<open>r?\<close> is \<open>Rep 0 1 r\<close>), \<open>Many lo r\<close> is
  \<open>r{lo,}\<close> (so \<open>r*\<close> is \<open>Many 0 r\<close> and \<open>r+\<close> is \<open>Many 1 r\<close>); all repetitions are greedy.
\<close>

text \<open>\<open>\w\<close>: letters, digits and the underscore.\<close>

definition isword :: "char \<Rightarrow> bool" where
  "isword c = (isupper c \<or> islower c \<or> isdigit c \<or> ord c = 95)"

text \<open>\<open>\b\<close>: exactly one of the character before the position and the character after it
  is a word character; the start and the end of the text count as non-word.\<close>

definition at_boundary :: "cursor \<Rightarrow> bool" where
  "at_boundary cur =
     ((case fst cur of None \<Rightarrow> False | Some c \<Rightarrow> isword c)
       \<noteq> (case snd cur of [] \<Rightarrow> False | c # _ \<Rightarrow> isword c))"

text \<open>One character of a class.\<close>

definition one_char :: "(char \<Rightarrow> bool) \<Rightarrow> cursor \<Rightarrow> cursor list" where
  "one_char P cur = (case snd cur of [] \<Rightarrow> [] | c # cs \<Rightarrow> if P c then [(Some c, cs)] else [])"

text \<open>
  The matcher. A sequence matches its parts one after the other; an alternation tries its
  branches from left to right; a greedy repetition tries one more iteration before it
  stops where it is. In the patterns of the source the operand of an unbounded repetition
  is a character class, which consumes one character in each iteration: there are at most
  as many iterations as characters remain.
\<close>

function ends :: "regex \<Rightarrow> cursor \<Rightarrow> cursor list"
  and ends_seq :: "regex list \<Rightarrow> cursor \<Rightarrow> cursor list"
  and ends_alt :: "regex list \<Rightarrow> cursor \<Rightarrow> cursor list"
  and ends_rep :: "regex \<Rightarrow> nat \<Rightarrow> nat \<Rightarrow> cursor \<Rightarrow> cursor list"
where
  "ends (Chr c) cur = one_char (\<lambda>x. x = c) cur"
| "ends (ChrI c) cur = one_char (\<lambda>x. lower_char x = lower_char c) cur"
| "ends (Class P) cur = one_char P cur"
| "ends Boundary cur = (if at_boundary cur then [cur] else [])"
| "ends (Seq rs) cur = ends_seq rs cur"
| "ends (Alt rs) cur = ends_alt rs cur"
| "ends (Rep lo hi r) cur = ends_rep r lo hi cur"
| "ends (Many lo r) cur = ends_rep r lo (length (snd cur)) cur"
| "ends_seq [] cur = [cur]"
| "ends_seq (r # rs) cur = concat (map (ends_seq rs) (ends r cur))"
| "ends_alt [] cur = []"
| "ends_alt (r # rs) cur = ends r cur @ ends_alt rs cur"
| "ends_rep r lo 0 cur = (if lo = 0 then [cur] else [])"
| "ends_rep r lo (Suc hi) cur =
     concat (map (ends_rep r (lo - 1) hi) (ends r cur)) @ (if lo = 0 then [cur] else [])"
  by pat_completeness auto
termination
  by (relation "inv_image (less_than <*lex*> less_than)
        (\<lambda>x. case x of
           Inl (Inl (r, cur)) \<Rightarrow> (2 * size r, 0)
         | Inl (Inr (rs, cur)) \<Rightarrow> (2 * size_list size rs + 1, 0)
         | Inr (Inl (rs, cur)) \<Rightarrow> (2 * size_list size rs + 1, 0)
         | Inr (Inr (r, lo, hi, cur)) \<Rightarrow> (2 * size r + 1, hi))")
     auto

text \<open>A literal string, and a literal string under \<open>re.IGNORECASE\<close>.\<close>

definition lit :: "string \<Rightarrow> regex" where
  "lit s = Seq (map Chr s)"

definition lit_i :: "string \<Rightarrow> regex" where
  "lit_i s = Seq (map ChrI s)"

text \<open>
  \<open>re.findall\<close>: the text is scanned from left to right. At each position the matcher is
  tried; a match gives its substring and the scan goes on from the end of the match;
  without a match the scan moves one character on, up to and including the end of the
  text. After an empty match the scan stays where it is, and the next match there must not
  be empty (\<open>must_advance\<close>).
\<close>

function findall_from :: "regex \<Rightarrow> bool \<Rightarrow> cursor \<Rightarrow> string list" where
  "findall_from r must_advance cur =
     (case filter (\<lambda>e. \<not> must_advance \<or> length (snd e) < length (snd cur)) (ends r cur) of
        e # _ \<Rightarrow>
          if length (snd e) < length (snd cur)
          then take (length (snd cur) - length (snd e)) (snd cur) # findall_from r False e
          else [] # findall_from r True cur
      | [] \<Rightarrow> (case snd cur of [] \<Rightarrow> [] | c # cs \<Rightarrow> findall_from r False (Some c, cs)))"
  by pat_completeness auto
termination
proof (relation "measure (\<lambda>(r, must_advance, cur). 2 * length (snd cur) + (if must_advance then 0 else 1))")
  show "wf (measure (\<lambda>(r, must_advance, cur). 2 * length (snd cur) + (if must_advance then 0 else 1)))"
    by simp
next
  fix r :: regex and must_advance :: bool and cur e :: cursor and es :: "cursor list"
  assume "filter (\<lambda>e. \<not> must_advance \<or> length (snd e) < length (snd cur)) (ends r cur) = e # es"
    and "length (snd e) < length (snd cur)"
  then show "((r, False, e), (r, must_advance, cur))
      \<in> measure (\<lambda>(r, must_advance, cur). 2 * length (snd cur) + (if must_advance then 0 else 1))"
    by simp
next
  fix r :: regex and must_advance :: bool and cur e :: cursor and es :: "cursor list"
  assume f: "filter (\<lambda>e. \<not> must_advance \<or> length (snd e) < length (snd cur)) (ends r cur) = e # es"
    and n: "\<not> length (snd e) < length (snd cur)"
  from f have "e \<in> set (filter (\<lambda>e. \<not> must_advance \<or> length (snd e) < length (snd cur)) (ends r cur))"
    by simp
  with n have "\<not> must_advance" by simp
  then show "((r, True, cur), (r, must_advance, cur))
      \<in> measure (\<lambda>(r, must_advance, cur). 2 * length (snd cur) + (if must_advance then 0 else 1))"
    by simp
next
  fix r :: regex and must_advance :: bool and cur :: cursor and c :: char and cs :: string
  assume "snd cur = c # cs"
  then show "((r, False, Some c, cs), (r, must_advance, cur))
      \<in> measure (\<lambda>(r, must_advance, cur). 2 * length (snd cur) + (if must_advance then 0 else 1))"
    by simp
qed

definition findall :: "regex \<Rightarrow> string \<Rightarrow> string list" where
  "findall r text = findall_from r False (None, text)"

declare findall_from.simps [simp del]


section \<open>EntityExtractionAgent\<close>

text \<open>\<open>\b\d{1,2}[\-/]\d{1,2}[\-/]\d{2,4}\b\<close>\<close>

definition numeric_date_pattern :: regex where
  "numeric_date_pattern =
     Seq [Boundary, Rep 1 2 (Class isdigit), Class (\<lambda>c. c = CHR ''-'' \<or> c = CHR ''/''),
          Rep 1 2 (Class isdigit), Class (\<lambda>c. c = CHR ''-'' \<or> c = CHR ''/''),
          Rep 2 4 (Class isdigit), Boundary]"

text \<open>\<open>\b(?:January|...|December)\s+\d{1,2}(?:,\s*\d{4})?\<close> with \<open>flags=re.I\<close>\<close>

definition month_date_pattern :: regex where
  "month_date_pattern =
     Seq [Boundary,
          Alt [lit_i ''January'', lit_i ''February'', lit_i ''March'', lit_i ''April'',
               lit_i ''May'', lit_i ''June'', lit_i ''July'', lit_i ''August'',
               lit_i ''September'', lit_i ''October'', lit_i ''November'', lit_i ''December''],
          Many 1 (Class isspace), Rep 1 2 (Class isdigit),
          Rep 0 1 (Seq [ChrI CHR '','', Many 0 (Class isspace), Rep 4 4 (Class isdigit)])]"

text \<open>The rupee sign U+20B9, in UTF-8.\<close>

definition rupee :: string where
  "rupee = [CHR 0xE2, CHR 0x82, CHR 0xB9]"

text \<open>\<open>\b(?:Rs\.?|\<rupee>)\s*[\d,]+\b\<close>, with the rupee sign as second alternative\<close>

definition value_pattern :: regex where
  "value_pattern =
     Seq [Boundary, Alt [Seq [lit ''Rs'', Rep 0 1 (Chr CHR ''.'')], lit rupee],
          Many 0 (Class isspace), Many 1 (Class (\<lambda>c. isdigit c \<or> c = CHR '','')), Boundary]"

text \<open>\<open>\b[A-Z][a-z]+(?:\s+[A-Z][a-z]+){0,2}\b\<close>\<close>

definition caps_pattern :: regex where
  "caps_pattern =
     Seq [Boundary, Class isupper, Many 1 (Class islower),
          Rep 0 2 (Seq [Many 1 (Class isspace), Class isupper, Many 1 (Class islower)]),
          Boundary]"

definition item_keywords :: "string list" where
  "item_keywords = [''phone'', ''laptop'', ''car'', ''house'', ''land'', ''jewelry'', ''money'',
     ''document'', ''agreement'', ''FIR'', ''complaint'']"

text \<open>\<open>list(dict.fromkeys(v))\<close>: the values are inserted as keys one after the other; a key
  that is already there keeps its place.\<close>

definition dedup :: "string list \<Rightarrow> string list" where
  "dedup v = foldl (\<lambda>keys x. if x \<in> set keys then keys else keys @ [x]) [] v"

text \<open>The method \<open>extract\<close> (called \<open>extract_entities\<close> here, \<open>extract\<close> being a keyword of
  Isabelle). The result is the dict \<open>out\<close> in its insertion order, every list deduplicated.\<close>

definition extract_entities :: "string \<Rightarrow> (string \<times> string list) list" where
  "extract_entities text =
     (let dates = take 3 (findall numeric_date_pattern text);
          months = findall month_date_pattern text;
          dates = dates @ months;
          vals = take 3 (findall value_pattern text);
          caps = findall caps_pattern text;
          locations = take 4 caps;
          items = take 4 (filter (\<lambda>kw. is_in (lower kw) (lower text)) item_keywords);
          out = [(''dates'', dates), (''locations'', locations), (''values'', vals),
                 (''items'', items), (''parties'', [])]
      in map (\<lambda>(k, v). (k, dedup v)) out)"

text \<open>The values of a list that stand at their first occurrence, in the order of the list:
  what deduplication that preserves the first-seen order has to return.\<close>

definition first_occurrences :: "string list \<Rightarrow> string list" where
  "first_occurrences v = map (nth v) (filter (\<lambda>i. v ! i \<notin> set (take i v)) [0..<length v])"


section \<open>AIAnalyzer: the reports\<close>

text \<open>
  The reports are f-strings: literal text with values inserted. A report is modelled as
  its lines, joined by line feeds. The symbols of the literals that are not ASCII stand
  as their UTF-8 encodings. Each report has a line \<open>Generated:\<close> with
  \<open>datetime.now().strftime('%Y-%m-%d %H:%M:%S')\<close>: the reading of the clock, formatted, is
  the parameter \<open>now\<close> of the builders.
\<close>

definition box_double :: string where
  "box_double = [CHR 0xE2, CHR 0x95, CHR 0x90]"

definition box_single :: string where
  "box_single = [CHR 0xE2, CHR 0x94, CHR 0x80]"

definition bullet :: string where
  "bullet = [CHR 0xE2, CHR 0x80, CHR 0xA2]"

definition warning_sign :: string where
  "warning_sign = [CHR 0xE2, CHR 0x9A, CHR 0xA0]"

text \<open>The rules of the reports: 51 double and 49 single box-drawing characters.\<close>

definition hr_double :: string where
  "hr_double = concat (replicate 51 box_double)"

definition hr_single :: string where
  "hr_single = concat (replicate 49 box_single)"

definition nl :: string where
  "nl = [CHR 0x0A]"


definition generate_template_report :: "string \<Rightarrow> string \<Rightarrow> string \<Rightarrow> string \<Rightarrow> string \<Rightarrow> string" where
  "generate_template_report now case_type subtype situation facts =
     (let steps =
        (if case_type = ''criminal'' then
           join nl
            [''1. File FIR immediately at the nearest police station'',
             ''2. Collect and preserve all evidence (photos, documents, CCTV)'',
             ''3. Get witness statements recorded'',
             ''4. Obtain medical examination report if injuries present'',
             ''5. Consult a criminal lawyer for detailed legal strategy'']
         else if case_type = ''family'' then
           join nl
            [''1. Attempt mediation/counseling first if applicable'',
             ''2. Gather all relevant documents (marriage certificate, financial records)'',
             ''3. Document any incidents with dates and evidence'',
             ''4. Consult a family law specialist'',
             ''5. Consider filing petition in family court if mediation fails'']
         else
           join nl
            [''1. Gather all relevant documents and evidence'',
             ''2. Document timeline of events'',
             ''3. Identify witnesses if any'',
             ''4. Consult appropriate legal specialist'',
             ''5. File case in appropriate court if required''])
      in join nl
        [hr_double,
         ''LEGAL CONSULTATION REPORT'',
         hr_double,
         [],
         ''Case Type: '' @ upper case_type,
         ''Subtype: '' @ subtype,
         ''Generated: '' @ now,
         [],
         hr_single,
         ''CLIENT STATEMENT:'',
         situation,
         [],
         hr_single,
         ''FACTS EXTRACTED:'',
         (if facts \<noteq> [] then facts else ''Limited information available''),
         [],
         hr_single,
         ''LEGAL ANALYSIS:'',
         [],
         ''Based on the information provided, this appears to be a '' @ case_type @ '' '',
         ''matter requiring immediate attention.'',
         [],
         ''RECOMMENDED LEGAL STEPS:'',
         steps,
         [],
         ''IMPORTANT NOTES:'',
         bullet @ '' Act promptly - legal timelines are strict'',
         bullet @ '' Document everything thoroughly'',
         bullet @ '' Preserve all evidence'',
         bullet @ '' Consult a qualified lawyer immediately for case-specific advice'',
         [],
         hr_single,
         ''DISCLAIMER:'',
         ''This is a preliminary analysis based on limited information.'',
         ''Please consult a qualified legal professional for authoritative advice.'',
         hr_double])"


definition analyze_robbery_case ::
  "string \<Rightarrow> string \<Rightarrow> string list \<Rightarrow> string list \<Rightarrow> string list \<Rightarrow> string list \<Rightarrow> string \<Rightarrow> string" where
  "analyze_robbery_case now situation dates locations vals items facts =
     (let analysis =
          [''CASE OVERVIEW:'',
           ''This is a robbery case under IPC Section 390-392 (Robbery and Dacoity).'']
        @ (case dates of [] \<Rightarrow> [] | x # _ \<Rightarrow> [''The incident occurred on '' @ x @ ''. Time is crucial - report immediately.''])
        @ (case locations of [] \<Rightarrow> [] | x # _ \<Rightarrow> [''Location: '' @ x @ ''. Evidence collection at the crime scene is vital.''])
        @ (case vals of [] \<Rightarrow> [] | x # _ \<Rightarrow> [''Value involved: '' @ x @ ''. Higher amounts may lead to more severe charges.''])
        @ (if items \<noteq> [] then [''Items taken: '' @ join '', '' items @ ''. Document with purchase receipts/serial numbers.''] else [])
        @ [''\<newline>APPLICABLE LAWS:'',
           bullet @ '' IPC Section 390: Definition of Robbery (theft with force/threat)'',
           bullet @ '' IPC Section 392: Punishment for robbery (up to 10 years + fine)'',
           bullet @ '' If weapon used: IPC Section 397 (robbery with deadly weapon) - up to 14 years'',
           bullet @ '' If injury caused: Enhanced punishment under relevant sections'',
           ''\<newline>IMMEDIATE ACTIONS REQUIRED:'',
           ''1. File FIR immediately at the nearest police station (jurisdiction based on crime location)'',
           ''2. Provide detailed description of perpetrators if seen'',
           ''3. Request police to preserve CCTV footage from the area'',
           ''4. Get medical examination done if any injuries sustained'',
           ''5. Prepare list of stolen items with proof of ownership'',
           ''6. Identify and contact witnesses immediately'',
           ''\<newline>EVIDENCE TO COLLECT:'',
           bullet @ '' CCTV footage from crime scene and surrounding areas'',
           bullet @ '' Witness statements (get written statements if possible)'',
           bullet @ '' Photos of crime scene and any damage'',
           bullet @ '' Medical reports if injuries present'',
           bullet @ '' Purchase receipts/serial numbers of stolen items'',
           bullet @ '' Bank statements showing cash withdrawal (if cash stolen)'',
           ''\<newline>LEGAL TIMELINE:'',
           bullet @ '' FIR should be filed within 24 hours for best results'',
           bullet @ '' CCTV footage may be overwritten after 7-30 days'',
           bullet @ '' Witness memory fades - record statements quickly'',
           ''\<newline>NEXT STEPS:'',
           ''1. File FIR today if not already done'',
           ''2. Engage a criminal lawyer to follow up on investigation'',
           ''3. Monitor police investigation progress'',
           ''4. Be prepared to identify accused if caught'',
           ''5. Keep all evidence organized for trial'']
      in join nl
        [hr_double,
         ''LEGAL CONSULTATION REPORT - ROBBERY CASE'',
         hr_double,
         [],
         ''Case Type: CRIMINAL - ROBBERY'',
         ''Generated: '' @ now,
         [],
         hr_single,
         ''CLIENT STATEMENT:'',
         situation,
         [],
         hr_single,
         ''FACTS COLLECTED:'',
         (if facts \<noteq> [] then facts else ''Limited information - answer all questions for detailed analysis''),
         [],
         hr_single,
         ''LEGAL ANALYSIS:'',
         [],
         join nl analysis,
         [],
         hr_single,
         ''CRITICAL REMINDERS:'',
         warning_sign @ '' Time is of the essence - evidence deteriorates quickly'',
         warning_sign @ '' FIR must be filed immediately'',
         warning_sign @ '' This is a serious offense - professional legal representation recommended'',
         warning_sign @ '' Cooperate fully with police investigation'',
         [],
         hr_single,
         ''DISCLAIMER:'',
         ''This is a preliminary legal analysis based on the information provided.'',
         ''For case-specific advice and representation, please consult a qualified'',
         ''criminal lawyer immediately. Laws and procedures may vary by state.'',
         hr_double])"


text \<open>The builders for theft, murder and assault, for family and for contract cases, call
  the template report.\<close>

definition analyze_theft_case ::
  "string \<Rightarrow> string \<Rightarrow> string list \<Rightarrow> string list \<Rightarrow> string list \<Rightarrow> string list \<Rightarrow> string \<Rightarrow> string" where
  "analyze_theft_case now situation dates locations vals items facts =
     generate_template_report now ''criminal'' ''theft'' situation facts"

definition analyze_murder_case ::
  "string \<Rightarrow> string \<Rightarrow> string list \<Rightarrow> string list \<Rightarrow> string \<Rightarrow> string" where
  "analyze_murder_case now situation dates locations facts =
     generate_template_report now ''criminal'' ''murder'' situation facts"

definition analyze_assault_case ::
  "string \<Rightarrow> string \<Rightarrow> string list \<Rightarrow> string list \<Rightarrow> string \<Rightarrow> string" where
  "analyze_assault_case now situation dates locations facts =
     generate_template_report now ''criminal'' ''assault'' situation facts"


definition analyze_property_case ::
  "string \<Rightarrow> string \<Rightarrow> string list \<Rightarrow> string list \<Rightarrow> string list \<Rightarrow> string \<Rightarrow> string" where
  "analyze_property_case now situation dates locations vals facts =
     (let analysis =
          [''CASE OVERVIEW:'',
           ''This is a property dispute case under relevant civil/property laws.'']
        @ (case locations of [] \<Rightarrow> [] | x # _ \<Rightarrow> [''Property location: '' @ x @ ''. Survey records and mutation documents are crucial.''])
        @ (case vals of [] \<Rightarrow> [] | x # _ \<Rightarrow> [''Estimated value: '' @ x @ ''. Property valuation report recommended.''])
        @ [''\<newline>APPLICABLE LAWS:'',
           bullet @ '' Transfer of Property Act, 1882'',
           bullet @ '' Indian Succession Act, 1925 (if inheritance dispute)'',
           bullet @ '' Specific Relief Act, 1963 (for specific performance)'',
           bullet @ '' Registration Act, 1908 (for property registration)'',
           bullet @ '' State-specific Land Revenue Acts'',
           ''\<newline>IMMEDIATE ACTIONS REQUIRED:'',
           ''1. Collect all property documents (sale deed, title deed, mutation records)'',
           ''2. Get property survey done to verify boundaries'',
           ''3. Check encumbrance certificate from sub-registrar office'',
           ''4. Verify ownership chain - trace back 30 years minimum'',
           ''5. Check for any pending litigation on the property'',
           ''6. Document any illegal occupation or encroachment with photos/videos'',
           ''\<newline>DOCUMENTS TO COLLECT:'',
           bullet @ '' Sale/Purchase deed'',
           bullet @ '' Title deed and ownership chain'',
           bullet @ '' Mutation records (7/12 extract, khasra, etc.)'',
           bullet @ '' Property tax receipts'',
           bullet @ '' Encumbrance certificate'',
           bullet @ '' Survey/plot plan'',
           bullet @ '' Building plan approval (if applicable)'',
           bullet @ '' Will/succession certificate (if inheritance case)'',
           ''\<newline>RESOLUTION OPTIONS:'',
           ''1. Negotiation and settlement (fastest and cheapest)'',
           ''2. Mediation through court or private mediator'',
           ''3. Civil suit in appropriate court'',
           ''4. Partition suit (if co-owned property)'',
           ''5. Injunction to prevent alienation/damage'',
           ''\<newline>NEXT STEPS:'',
           ''1. Consult a property lawyer with all documents'',
           ''2. Get legal opinion on ownership status'',
           ''3. Attempt amicable settlement first'',
           ''4. If settlement fails, file appropriate civil suit'',
           ''5. Apply for interim injunction if urgent'']
      in join nl
        [hr_double,
         ''LEGAL CONSULTATION REPORT - PROPERTY DISPUTE'',
         hr_double,
         [],
         ''Case Type: PROPERTY DISPUTE'',
         ''Generated: '' @ now,
         [],
         hr_single,
         ''CLIENT STATEMENT:'',
         situation,
         [],
         hr_single,
         ''FACTS COLLECTED:'',
         (if facts \<noteq> [] then facts else ''Limited information - answer all questions for detailed analysis''),
         [],
         hr_single,
         ''LEGAL ANALYSIS:'',
         [],
         join nl analysis,
         [],
         hr_single,
         ''CRITICAL REMINDERS:'',
         warning_sign @ '' Property disputes can take years - document everything'',
         warning_sign @ '' Verify all documents before making any payment'',
         warning_sign @ '' Get title search done by professional lawyer'',
         warning_sign @ '' Do not make any physical changes to disputed property'',
         [],
         hr_single,
         ''DISCLAIMER:'',
         ''This is a preliminary legal analysis based on the information provided.'',
         ''Property laws vary by state. Please consult a qualified property lawyer'',
         ''for case-specific advice and representation.'',
         hr_double])"


definition analyze_family_case :: "string \<Rightarrow> string \<Rightarrow> string list \<Rightarrow> string \<Rightarrow> string" where
  "analyze_family_case now situation dates facts =
     generate_template_report now ''family'' ''family'' situation facts"

definition analyze_contract_case ::
  "string \<Rightarrow> string \<Rightarrow> string list \<Rightarrow> string list \<Rightarrow> string \<Rightarrow> string" where
  "analyze_contract_case now situation dates vals facts =
     generate_template_report now ''contract'' ''contract'' situation facts"

text \<open>\<open>_generate_enhanced_report\<close>: the dispatch on case type and subtype.\<close>

definition generate_enhanced_report ::
  "string \<Rightarrow> string \<Rightarrow> string \<Rightarrow> string \<Rightarrow> string \<Rightarrow> knowledge_graph \<Rightarrow> string" where
  "generate_enhanced_report now case_type subtype situation facts kg =
     (let dates = entities_get (entities kg) ''dates'';
          locations = entities_get (entities kg) ''locations'';
          vals = entities_get (entities kg) ''values'';
          items = entities_get (entities kg) ''items''
      in if case_type = ''criminal'' \<and> subtype = ''robbery''
           then analyze_robbery_case now situation dates locations vals items facts
         else if case_type = ''criminal'' \<and> subtype = ''theft''
           then analyze_theft_case now situation dates locations vals items facts
         else if case_type = ''criminal'' \<and> subtype = ''murder''
           then analyze_murder_case now situation dates locations facts
         else if case_type = ''criminal'' \<and> subtype = ''assault''
           then analyze_assault_case now situation dates locations facts
         else if case_type = ''property''
           then analyze_property_case now situation dates locations vals facts
         else if case_type = ''family''
           then analyze_family_case now situation dates facts
         else if case_type = ''contract''
           then analyze_contract_case now situation dates vals facts
         else generate_template_report now case_type subtype situation facts)"

text \<open>The summary of the facts: one line \<open>TYPE: v1, v2, ...\<close> for each entity type with a
  non-empty list, in the insertion order of the types.\<close>

definition fact_text :: "knowledge_graph \<Rightarrow> string" where
  "fact_text kg =
     join nl (map (\<lambda>(k, v). upper k @ '': '' @ join '', '' v)
                  (filter (\<lambda>(k, v). v \<noteq> []) (entities kg)))"

definition analyze :: "string \<Rightarrow> string \<Rightarrow> knowledge_graph \<Rightarrow> string" where
  "analyze now case_type kg =
     (let situation = context_get kg ''situation'' [];
          subtype = (if case_type = ''criminal''
                     then context_get kg ''criminal_subtype'' ''Unknown''
                     else case_type)
      in generate_enhanced_report now case_type subtype situation (fact_text kg) kg)"

section \<open>AgenticLegalSystem: the sessions\<close>

text \<open>
  A session is the dict stored under its identifier; its keys are the fields of the record
  (\<open>session_kg\<close> and \<open>session_case_type\<close> for the keys \<open>kg\<close> and \<open>case_type\<close>). The store
  \<open>self.sessions\<close> is a map from identifiers to sessions. The lock only serialises the
  accesses to the store; the model is sequential.
\<close>

record session =
  query_history :: "string list"
  session_kg :: knowledge_graph
  session_case_type :: string
  turns_done :: int
  max_turns :: int
  asked_questions :: "string list"
  finished :: bool

type_synonym store = "string \<rightharpoonup> session"

text \<open>The exception raised by \<open>answer_session\<close>, with its message.\<close>

datatype error = KeyError string

text \<open>The dict returned by \<open>start_session\<close>.\<close>

record start_result =
  session_id :: string
  start_action :: string
  start_question :: "string option"
  start_report :: string

text \<open>The dict returned by \<open>answer_session\<close>: with the keys \<open>next_action\<close>, \<open>question\<close> and
  \<open>partial_report\<close> when it asks, with the keys \<open>next_action\<close>, \<open>report\<close> and \<open>structured\<close> when
  it finishes; \<open>structured\<close> is a dict.\<close>

datatype answer_result =
    Ask (question: string) (partial_report: string)
  | Final (report: string) (structured: "(string \<times> string) list")

fun next_action :: "answer_result \<Rightarrow> string" where
  "next_action (Ask q r) = ''ask''"
| "next_action (Final r s) = ''final''"


text \<open>\<open>for k, vals in extracted.items(): for v in vals: kg.add_entity(k, v)\<close>\<close>

definition add_extracted :: "knowledge_graph \<Rightarrow> (string \<times> string list) list \<Rightarrow> knowledge_graph" where
  "add_extracted kg extracted =
     foldl (\<lambda>kg (k, vals). foldl (\<lambda>kg v. add_entity kg k v) kg vals) kg extracted"

text \<open>
  \<open>start_session\<close>. The identifier is \<open>str(uuid.uuid4())\<close>: the identifier drawn is the
  parameter \<open>sid\<close>. The clock reading \<open>now\<close> goes to the report. The result is the new store
  and the dict returned. \<open>if q and max_turns > 0\<close> holds for a question that is neither
  missing nor the empty string.
\<close>

definition start_session :: "string \<Rightarrow> string \<Rightarrow> store \<Rightarrow> string \<Rightarrow> int \<Rightarrow> store \<times> start_result" where
  "start_session now sid sessions query max_turns_arg =
     (let (case_type, conf) = initial_classify query;
          kg = new_kg;
          kg = set_context kg ''situation'' query;
          kg = set_context kg ''case_type'' case_type;
          kg = set_context kg ''criminal_subtype'' (detect_crime_subtype query);
          extracted = extract_entities query;
          kg = add_extracted kg extracted;
          state = \<lparr>query_history = [query], session_kg = kg, session_case_type = case_type,
                   turns_done = 0, max_turns = max_turns_arg, asked_questions = [],
                   finished = False\<rparr>;
          q = generate_next case_type kg []
      in case q of
           Some qu \<Rightarrow>
             if qu \<noteq> [] \<and> max_turns_arg > 0
             then let state = state\<lparr>asked_questions := asked_questions state @ [qu]\<rparr>;
                      report = analyze now case_type kg
                  in (sessions(sid \<mapsto> state),
                      \<lparr>session_id = sid, start_action = ''ask'', start_question = Some qu,
                        start_report = report\<rparr>)
             else let state = state\<lparr>finished := True\<rparr>;
                      report = analyze now case_type kg
                  in (sessions(sid \<mapsto> state),
                      \<lparr>session_id = sid, start_action = ''final'', start_question = None,
                        start_report = report\<rparr>)
         | None \<Rightarrow>
             let state = state\<lparr>finished := True\<rparr>;
                 report = analyze now case_type kg
             in (sessions(sid \<mapsto> state),
                 \<lparr>session_id = sid, start_action = ''final'', start_question = None,
                   start_report = report\<rparr>))"

text \<open>
  The part of \<open>answer_session\<close> before the decision: the answer is appended to the history,
  \<open>turns_done\<close> is incremented, the entities of the answer are added to the graph, and the
  subtype is detected again from the situation followed by a space and all entity values
  joined by spaces.
\<close>

definition record_answer :: "session \<Rightarrow> string \<Rightarrow> session" where
  "record_answer state answer =
     (let state = state\<lparr>query_history := query_history state @ [answer]\<rparr>;
          state = state\<lparr>turns_done := turns_done state + 1\<rparr>;
          extracted = extract_entities answer;
          kg = add_extracted (session_kg state) extracted;
          kg = set_context kg ''criminal_subtype''
                 (detect_crime_subtype
                    (context_get kg ''situation'' [] @ '' '' @
                     join '' '' (concat (map snd (entities kg)))))
      in state\<lparr>session_kg := kg\<rparr>)"

text \<open>
  \<open>answer_session\<close>. The result is the store after the call and either the exception raised
  or the dict returned. \<open>if not state\<close> holds when the identifier is not in the store (a
  stored session is a dict with seven keys, never an empty one). The session looked up is
  mutated in place, so that the store holds the new state on both ways out; the code reads
  \<open>finished\<close> nowhere.
\<close>

definition answer_session :: "string \<Rightarrow> store \<Rightarrow> string \<Rightarrow> string \<Rightarrow> store \<times> (error + answer_result)" where
  "answer_session now sessions sid answer =
     (case sessions sid of
        None \<Rightarrow> (sessions, Inl (KeyError ''session not found''))
      | Some state0 \<Rightarrow>
          let state = record_answer state0 answer;
              report = analyze now (session_case_type state) (session_kg state);
              q = (if turns_done state < max_turns state
                   then generate_next (session_case_type state) (session_kg state) (asked_questions state)
                   else None)
          in case q of
               Some qu \<Rightarrow>
                 if qu \<noteq> []
                 then let state = state\<lparr>asked_questions := asked_questions state @ [qu]\<rparr>
                      in (sessions(sid \<mapsto> state), Inr (Ask qu report))
                 else let state = state\<lparr>finished := True\<rparr>
                      in (sessions(sid \<mapsto> state), Inr (Final report []))
             | None \<Rightarrow>
                 let state = state\<lparr>finished := True\<rparr>
                 in (sessions(sid \<mapsto> state), Inr (Final report [])))"

text \<open>
  The flow of \<open>test_full_flow.py\<close>, on an empty store: a consultation is started with the
  query of the test and \<open>max_turns = 3\<close>, and the three answers of the test are given. The
  test goes through the HTTP endpoints, which hand the query and the answers on as they
  are. The session identifier and the clock reading are fixed values.
\<close>

definition flow_now :: string where
  "flow_now = ''2025-01-01 10:00:00''"

definition flow_sid :: string where
  "flow_sid = ''session-1''"

definition flow_started :: "store \<times> start_result" where
  "flow_started = start_session flow_now flow_sid Map.empty ''robbery happened yesterday at my shop'' 3"

definition flow_answer1 :: "store \<times> (error + answer_result)" where
  "flow_answer1 = answer_session flow_now (fst flow_started) flow_sid ''around 5pm yesterday''"

definition flow_answer2 :: "store \<times> (error + answer_result)" where
  "flow_answer2 = answer_session flow_now (fst flow_answer1) flow_sid ''in my electronics shop''"

definition flow_answer3 :: "store \<times> (error + answer_result)" where
  "flow_answer3 = answer_session flow_now (fst flow_answer2) flow_sid ''yes knife was used''"

section \<open>Properties of the classifier and of the subtype detection\<close>

lemma subtype_loop_spec:
  "subtype_loop t items (b, bs) = (r, rs) \<Longrightarrow>
    ((r, rs) = (b, bs) \<and> (\<forall>(s, k) \<in> set items. match_count k t \<le> bs)) \<or>
    (\<exists>pre k post. items = pre @ (r, k) # post \<and> rs = match_count k t \<and> bs < rs \<and>
       (\<forall>(s, k') \<in> set pre. match_count k' t < rs) \<and>
       (\<forall>(s, k') \<in> set post. match_count k' t \<le> rs))"
proof (induction items arbitrary: b bs)
  case Nil
  then show ?case by simp
next
  case (Cons item items)
  obtain s kw where item: "item = (s, kw)" by (cases item)
  show ?case
  proof (cases "match_count kw t > bs")
    case True
    with Cons.prems item have run: "subtype_loop t items (s, match_count kw t) = (r, rs)"
      by simp
    from Cons.IH [OF run] show ?thesis
    proof
      assume a: "(r, rs) = (s, match_count kw t) \<and> (\<forall>(s, k) \<in> set items. match_count k t \<le> match_count kw t)"
      then have "item # items = [] @ (r, kw) # items" using item by simp
      with a True show ?thesis by (intro disjI2 exI[of _ "[]"] exI[of _ kw] exI[of _ items]) auto
    next
      assume "\<exists>pre k post. items = pre @ (r, k) # post \<and> rs = match_count k t \<and> match_count kw t < rs \<and>
       (\<forall>(s, k') \<in> set pre. match_count k' t < rs) \<and>
       (\<forall>(s, k') \<in> set post. match_count k' t \<le> rs)"
      then obtain pre k post where p: "items = pre @ (r, k) # post" "rs = match_count k t" "match_count kw t < rs"
       "\<forall>(s, k') \<in> set pre. match_count k' t < rs" "\<forall>(s, k') \<in> set post. match_count k' t \<le> rs"
        by blast
      have "item # items = (item # pre) @ (r, k) # post" using p(1) by simp
      moreover have "\<forall>(s, k') \<in> set (item # pre). match_count k' t < rs" using p(3,4) item by auto
      moreover have "bs < rs" using True p(3) by simp
      ultimately show ?thesis using p(2,5) by blast
    qed
  next
    case False
    with Cons.prems item have run: "subtype_loop t items (b, bs) = (r, rs)"
      by simp
    from Cons.IH [OF run] show ?thesis
    proof
      assume a: "(r, rs) = (b, bs) \<and> (\<forall>(s, k) \<in> set items. match_count k t \<le> bs)"
      with False item show ?thesis by auto
    next
      assume "\<exists>pre k post. items = pre @ (r, k) # post \<and> rs = match_count k t \<and> bs < rs \<and>
       (\<forall>(s, k') \<in> set pre. match_count k' t < rs) \<and>
       (\<forall>(s, k') \<in> set post. match_count k' t \<le> rs)"
      then obtain pre k post where p: "items = pre @ (r, k) # post" "rs = match_count k t" "bs < rs"
       "\<forall>(s, k') \<in> set pre. match_count k' t < rs" "\<forall>(s, k') \<in> set post. match_count k' t \<le> rs"
        by blast
      have "item # items = (item # pre) @ (r, k) # post" using p(1) by simp
      moreover have "\<forall>(s, k') \<in> set (item # pre). match_count k' t < rs" using p(3,4) item False by auto
      ultimately show ?thesis using p(2,3,5) by blast
    qed
  qed
qed


lemma offense_subtypes_eq: "offense_subtypes = [''murder'', ''theft'', ''robbery'', ''assault'']"
  by (simp add: offense_subtypes_def OFFENSE_KEYWORDS_def)

lemma case_types_eq: "case_types = [''criminal'', ''family'', ''property'', ''contract'']"
  by (simp add: case_types_def case_keywords_def)

lemma distinct_offense: "distinct (map fst OFFENSE_KEYWORDS)"
  using offense_subtypes_eq by (simp add: offense_subtypes_def)

lemma distinct_case_types: "distinct (map fst case_keywords)"
  using case_types_eq by (simp add: case_types_def)

lemma subtype_score_mem:
  "(s, k) \<in> set OFFENSE_KEYWORDS \<Longrightarrow> subtype_score text s = match_count k (lower text)"
  using distinct_offense by (simp add: subtype_score_def)

lemma case_score_mem:
  "(s, k) \<in> set case_keywords \<Longrightarrow> case_score query s = match_count k (lower query)"
  using distinct_case_types by (simp add: case_score_def)

lemma detect_all_zero:
  assumes "\<forall>s \<in> set offense_subtypes. subtype_score text s = 0"
  shows "detect_crime_subtype text = ''theft''"
proof -
  obtain r rs where run: "subtype_loop (lower text) OFFENSE_KEYWORDS (''theft'', 0) = (r, rs)"
    by (cases "subtype_loop (lower text) OFFENSE_KEYWORDS (''theft'', 0)")
  from subtype_loop_spec [OF run] show ?thesis
  proof
    assume "(r, rs) = (''theft'', 0) \<and> (\<forall>(s, k) \<in> set OFFENSE_KEYWORDS. match_count k (lower text) \<le> 0)"
    with run show ?thesis by (simp add: detect_crime_subtype_def)
  next
    assume "\<exists>pre k post. OFFENSE_KEYWORDS = pre @ (r, k) # post \<and> rs = match_count k (lower text) \<and> 0 < rs \<and>
       (\<forall>(s, k') \<in> set pre. match_count k' (lower text) < rs) \<and>
       (\<forall>(s, k') \<in> set post. match_count k' (lower text) \<le> rs)"
    then obtain pre k post where p: "OFFENSE_KEYWORDS = pre @ (r, k) # post"
      "rs = match_count k (lower text)" "0 < rs" by blast
    from p(1) have mem: "(r, k) \<in> set OFFENSE_KEYWORDS" by (metis in_set_conv_decomp)
    then have "r \<in> set offense_subtypes" by (force simp: offense_subtypes_def)
    with assms have "subtype_score text r = 0" by blast
    with subtype_score_mem [OF mem] p(2,3) show ?thesis by simp
  qed
qed

lemma detect_some_positive:
  assumes "\<not> (\<forall>s \<in> set offense_subtypes. subtype_score text s = 0)"
  shows "\<exists>pre post. offense_subtypes = pre @ detect_crime_subtype text # post \<and>
     (\<forall>s \<in> set pre. subtype_score text s < subtype_score text (detect_crime_subtype text)) \<and>
     (\<forall>s \<in> set post. subtype_score text s \<le> subtype_score text (detect_crime_subtype text))"
proof -
  obtain r rs where run: "subtype_loop (lower text) OFFENSE_KEYWORDS (''theft'', 0) = (r, rs)"
    by (cases "subtype_loop (lower text) OFFENSE_KEYWORDS (''theft'', 0)")
  then have r: "detect_crime_subtype text = r" by (simp add: detect_crime_subtype_def)
  from subtype_loop_spec [OF run] show ?thesis
  proof
    assume a: "(r, rs) = (''theft'', 0) \<and> (\<forall>(s, k) \<in> set OFFENSE_KEYWORDS. match_count k (lower text) \<le> 0)"
    have "\<forall>s \<in> set offense_subtypes. subtype_score text s = 0"
    proof
      fix s assume "s \<in> set offense_subtypes"
      then obtain k where mem: "(s, k) \<in> set OFFENSE_KEYWORDS" by (auto simp: offense_subtypes_def)
      with a have "match_count k (lower text) = 0" by auto
      with subtype_score_mem [OF mem] show "subtype_score text s = 0" by simp
    qed
    with assms show ?thesis by simp
  next
    assume "\<exists>pre k post. OFFENSE_KEYWORDS = pre @ (r, k) # post \<and> rs = match_count k (lower text) \<and> 0 < rs \<and>
       (\<forall>(s, k') \<in> set pre. match_count k' (lower text) < rs) \<and>
       (\<forall>(s, k') \<in> set post. match_count k' (lower text) \<le> rs)"
    then obtain pre k post where p: "OFFENSE_KEYWORDS = pre @ (r, k) # post"
      "rs = match_count k (lower text)" "0 < rs"
      "\<forall>(s, k') \<in> set pre. match_count k' (lower text) < rs"
      "\<forall>(s, k') \<in> set post. match_count k' (lower text) \<le> rs" by blast
    from p(1) have mem: "(r, k) \<in> set OFFENSE_KEYWORDS" by (metis in_set_conv_decomp)
    have rs: "subtype_score text r = rs" using subtype_score_mem [OF mem] p(2) by simp
    have split: "offense_subtypes = map fst pre @ r # map fst post"
      unfolding offense_subtypes_def by (subst p(1)) simp
    have pre: "\<forall>s \<in> set (map fst pre). subtype_score text s < rs"
    proof
      fix s assume "s \<in> set (map fst pre)"
      then obtain k' where m: "(s, k') \<in> set pre" by auto
      then have "(s, k') \<in> set OFFENSE_KEYWORDS" by (subst p(1)) simp
      from subtype_score_mem [OF this] p(4) m show "subtype_score text s < rs" by auto
    qed
    have post: "\<forall>s \<in> set (map fst post). subtype_score text s \<le> rs"
    proof
      fix s assume "s \<in> set (map fst post)"
      then obtain k' where m: "(s, k') \<in> set post" by auto
      then have "(s, k') \<in> set OFFENSE_KEYWORDS" by (subst p(1)) simp
      from subtype_score_mem [OF this] p(5) m show "subtype_score text s \<le> rs" by auto
    qed
    from split pre post rs r show ?thesis by blast
  qed
qed

lemma max_value_zero: "max_value b vs = 0 \<longleftrightarrow> b = 0 \<and> (\<forall>v \<in> set vs. v = 0)"
  by (induction vs arbitrary: b) auto

lemma max_key_spec:
  "max_key b kvs = r \<Longrightarrow>
     \<exists>pre post. b # kvs = pre @ r # post \<and> (\<forall>x \<in> set pre. snd x < snd r) \<and> (\<forall>x \<in> set post. snd x \<le> snd r)"
proof (induction kvs arbitrary: b)
  case Nil
  then have "[b] = [] @ r # []" by simp
  then show ?case by (metis empty_iff list.set(1))
next
  case (Cons kv kvs)
  show ?case
  proof (cases "snd b < snd kv")
    case True
    with Cons.prems have "max_key kv kvs = r" by simp
    from Cons.IH [OF this] obtain pre post where
      p: "kv # kvs = pre @ r # post" "\<forall>x \<in> set pre. snd x < snd r" "\<forall>x \<in> set post. snd x \<le> snd r"
      by blast
    have "snd kv \<le> snd r" using p(1,2) by (cases pre) auto
    with True have "\<forall>x \<in> set (b # pre). snd x < snd r" using p(2) by auto
    moreover have "b # kv # kvs = (b # pre) @ r # post" using p(1) by simp
    ultimately show ?thesis using p(3) by blast
  next
    case False
    with Cons.prems have "max_key b kvs = r" by simp
    from Cons.IH [OF this] obtain pre post where
      p: "b # kvs = pre @ r # post" "\<forall>x \<in> set pre. snd x < snd r" "\<forall>x \<in> set post. snd x \<le> snd r"
      by blast
    show ?thesis
    proof (cases pre)
      case Nil
      with p(1) have "r = b" "post = kvs" by simp_all
      with False p(3) have "b # kv # kvs = [] @ r # (kv # kvs)" "\<forall>x \<in> set (kv # kvs). snd x \<le> snd r"
        by auto
      then show ?thesis by (metis empty_iff list.set(1))
    next
      case (Cons b' pre')
      with p(1) have b': "b' = b" and kvs: "kvs = pre' @ r # post" by simp_all
      have "snd b < snd r" using p(2) Cons b' by simp
      with False have "\<forall>x \<in> set (b # kv # pre'). snd x < snd r" using p(2) Cons by auto
      moreover have "b # kv # kvs = (b # kv # pre') @ r # post" using kvs by simp
      ultimately show ?thesis using p(3) by blast
    qed
  qed
qed

lemma classify_scores_nonempty: "hd (classify_scores q) # tl (classify_scores q) = classify_scores q"
  by (simp add: classify_scores_def case_keywords_def)

lemma classify_scores_keys: "map fst (classify_scores q) = case_types"
  by (simp add: classify_scores_def case_types_def case_prod_beta comp_def)

lemma classify_scores_mem:
  "(c, n) \<in> set (classify_scores (lower query)) \<Longrightarrow> n = case_score query c"
  by (auto simp: classify_scores_def case_score_mem)

lemma classify_scores_zero:
  "max_value (snd (hd (classify_scores (lower query)))) (map snd (tl (classify_scores (lower query)))) = 0
     \<longleftrightarrow> (\<forall>c \<in> set case_types. case_score query c = 0)"
proof -
  let ?s = "classify_scores (lower query)"
  have "max_value (snd (hd ?s)) (map snd (tl ?s)) = 0 \<longleftrightarrow> (\<forall>v \<in> set (map snd (hd ?s # tl ?s)). v = 0)"
    by (simp add: max_value_zero)
  also have "\<dots> \<longleftrightarrow> (\<forall>x \<in> set ?s. snd x = 0)"
    by (simp only: classify_scores_nonempty) simp
  also have "\<dots> \<longleftrightarrow> (\<forall>c \<in> set case_types. case_score query c = 0)"
  proof
    assume a: "\<forall>x \<in> set ?s. snd x = 0"
    show "\<forall>c \<in> set case_types. case_score query c = 0"
    proof
      fix c assume "c \<in> set case_types"
      then obtain n where m: "(c, n) \<in> set ?s" unfolding classify_scores_keys [symmetric, of "lower query"] by auto
      with a classify_scores_mem [OF m] show "case_score query c = 0" by auto
    qed
  next
    assume a: "\<forall>c \<in> set case_types. case_score query c = 0"
    show "\<forall>x \<in> set ?s. snd x = 0"
    proof
      fix x assume x: "x \<in> set ?s"
      then have "fst x \<in> set case_types" unfolding classify_scores_keys [symmetric, of "lower query"] by simp
      moreover have "snd x = case_score query (fst x)" using classify_scores_mem [of "fst x" "snd x"] x by simp
      ultimately show "snd x = 0" using a by simp
    qed
  qed
  finally show ?thesis .
qed

lemma classify_general:
  "\<forall>c \<in> set case_types. case_score query c = 0 \<Longrightarrow> initial_classify query = (''general'', 1 / 2)"
  using classify_scores_zero [of query] by (simp add: initial_classify_def Let_def)

lemma classify_best:
  assumes "\<not> (\<forall>c \<in> set case_types. case_score query c = 0)"
  shows "\<exists>pre post. case_types = pre @ fst (initial_classify query) # post \<and>
     (\<forall>c \<in> set pre. case_score query c < case_score query (fst (initial_classify query))) \<and>
     (\<forall>c \<in> set post. case_score query c \<le> case_score query (fst (initial_classify query))) \<and>
     snd (initial_classify query) = min (real (case_score query (fst (initial_classify query))) / 5) 1"
proof -
  let ?s = "classify_scores (lower query)"
  obtain bt bs where best: "max_key (hd ?s) (tl ?s) = (bt, bs)" by (cases "max_key (hd ?s) (tl ?s)")
  have nz: "max_value (snd (hd ?s)) (map snd (tl ?s)) \<noteq> 0"
    using assms classify_scores_zero [of query] by simp
  have res: "initial_classify query = (bt, min (real bs / 5) 1)"
    using nz best by (simp add: initial_classify_def Let_def)
  from max_key_spec [OF best] obtain pre post where
    p: "hd ?s # tl ?s = pre @ (bt, bs) # post" "\<forall>x \<in> set pre. snd x < bs" "\<forall>x \<in> set post. snd x \<le> bs"
    by auto
  have s: "?s = pre @ (bt, bs) # post" using p(1) by (simp only: classify_scores_nonempty)
  then have "(bt, bs) \<in> set ?s" by simp
  then have bs: "bs = case_score query bt" by (rule classify_scores_mem)
  have keys: "case_types = map fst pre @ bt # map fst post"
    unfolding classify_scores_keys [symmetric, of "lower query"] by (subst s) simp
  have pre: "\<forall>c \<in> set (map fst pre). case_score query c < bs"
  proof
    fix c assume "c \<in> set (map fst pre)"
    then obtain n where m: "(c, n) \<in> set pre" by auto
    then have "(c, n) \<in> set ?s" by (subst s) simp
    from classify_scores_mem [OF this] p(2) m show "case_score query c < bs" by auto
  qed
  have post: "\<forall>c \<in> set (map fst post). case_score query c \<le> bs"
  proof
    fix c assume "c \<in> set (map fst post)"
    then obtain n where m: "(c, n) \<in> set post" by auto
    then have "(c, n) \<in> set ?s" by (subst s) simp
    from classify_scores_mem [OF this] p(3) m show "case_score query c \<le> bs" by auto
  qed
  show ?thesis using keys pre post bs res by (intro exI[of _ "map fst pre"] exI[of _ "map fst post"]) simp
qed

lemma classify_confidence_range:
  "0 \<le> snd (initial_classify query) \<and> snd (initial_classify query) \<le> 1"
  by (simp add: initial_classify_def Let_def split: prod.splits)

lemma classify_empty: "initial_classify [] = (''general'', 1 / 2)"
proof -
  have "\<forall>c \<in> set case_types. case_score [] c = 0"
    unfolding case_types_eq by code_simp
  then show ?thesis by (rule classify_general)
qed


text \<open>
  C6. For every query, also the empty one, \<open>initial_classify\<close> returns \<open>general\<close> with
  confidence one half when every case type scores zero; otherwise it returns the first
  case type, in declaration order, whose keyword-match count is maximal (every earlier
  case type scores strictly less, every later one at most as much), with confidence
  \<open>min (count / 5) 1\<close>. The empty query is classified \<open>(general, 1/2)\<close>, and the confidence
  always lies between 0 and 1.
\<close>

theorem initial_classify_spec:
  "(if \<forall>c \<in> set case_types. case_score query c = 0
    then initial_classify query = (''general'', 1 / 2)
    else \<exists>pre post. case_types = pre @ fst (initial_classify query) # post \<and>
       (\<forall>c \<in> set pre. case_score query c < case_score query (fst (initial_classify query))) \<and>
       (\<forall>c \<in> set post. case_score query c \<le> case_score query (fst (initial_classify query))) \<and>
       snd (initial_classify query) = min (real (case_score query (fst (initial_classify query))) / 5) 1)
   \<and> initial_classify [] = (''general'', 1 / 2)
   \<and> 0 \<le> snd (initial_classify query) \<and> snd (initial_classify query) \<le> 1"
  using classify_general classify_best classify_empty classify_confidence_range
  by (cases "\<forall>c \<in> set case_types. case_score query c = 0") simp_all


theorem initial_classify_spec_witness:
  "(\<exists>c \<in> set case_types. case_score ''land divorce'' c \<noteq> 0) \<and>
   (\<exists>pre post. case_types = pre @ fst (initial_classify ''land divorce'') # post \<and>
      (\<forall>c \<in> set pre. case_score ''land divorce'' c < case_score ''land divorce'' (fst (initial_classify ''land divorce''))) \<and>
      (\<forall>c \<in> set post. case_score ''land divorce'' c \<le> case_score ''land divorce'' (fst (initial_classify ''land divorce''))) \<and>
      snd (initial_classify ''land divorce'') =
        min (real (case_score ''land divorce'' (fst (initial_classify ''land divorce''))) / 5) 1)"
proof -
  have h: "\<exists>c \<in> set case_types. case_score ''land divorce'' c \<noteq> 0"
    by code_simp
  with initial_classify_spec [of "''land divorce''"] show ?thesis
    by auto
qed

text \<open>
  C5, as the code has it. \<open>detect_crime_subtype\<close> returns \<open>theft\<close> when every subtype scores
  zero; otherwise it returns the first subtype, in the declaration order murder, theft,
  robbery, assault, whose keyword-match count is maximal: a tie for the highest count goes
  to the subtype declared first, not to \<open>theft\<close>. A subtype whose count is strictly the
  highest is returned.
\<close>

theorem detect_crime_subtype_first_maximal:
  "(if \<forall>s \<in> set offense_subtypes. subtype_score text s = 0
    then detect_crime_subtype text = ''theft''
    else \<exists>pre post. offense_subtypes = pre @ detect_crime_subtype text # post \<and>
       (\<forall>s \<in> set pre. subtype_score text s < subtype_score text (detect_crime_subtype text)) \<and>
       (\<forall>s \<in> set post. subtype_score text s \<le> subtype_score text (detect_crime_subtype text)))
   \<and> (\<forall>s \<in> set offense_subtypes.
        (\<forall>s' \<in> set offense_subtypes. s' \<noteq> s \<longrightarrow> subtype_score text s' < subtype_score text s)
        \<longrightarrow> detect_crime_subtype text = s)"
proof (intro conjI ballI impI)
  show "if \<forall>s \<in> set offense_subtypes. subtype_score text s = 0
    then detect_crime_subtype text = ''theft''
    else \<exists>pre post. offense_subtypes = pre @ detect_crime_subtype text # post \<and>
       (\<forall>s \<in> set pre. subtype_score text s < subtype_score text (detect_crime_subtype text)) \<and>
       (\<forall>s \<in> set post. subtype_score text s \<le> subtype_score text (detect_crime_subtype text))"
    using detect_all_zero detect_some_positive by (cases "\<forall>s \<in> set offense_subtypes. subtype_score text s = 0") simp_all
next
  fix s
  assume s: "s \<in> set offense_subtypes"
    and top: "\<forall>s' \<in> set offense_subtypes. s' \<noteq> s \<longrightarrow> subtype_score text s' < subtype_score text s"
  have "\<exists>s' \<in> set offense_subtypes. s' \<noteq> s" by (auto simp: offense_subtypes_eq)
  with top have "0 < subtype_score text s" by fastforce
  with s have "\<not> (\<forall>s \<in> set offense_subtypes. subtype_score text s = 0)" by auto
  from detect_some_positive [OF this] obtain pre post where
    d: "offense_subtypes = pre @ detect_crime_subtype text # post"
    "\<forall>s \<in> set pre. subtype_score text s < subtype_score text (detect_crime_subtype text)"
    "\<forall>s \<in> set post. subtype_score text s \<le> subtype_score text (detect_crime_subtype text)" by blast
  have "subtype_score text s \<le> subtype_score text (detect_crime_subtype text)"
    using s d by (metis Un_iff insert_iff list.simps(15) order.refl less_imp_le set_append)
  moreover have "detect_crime_subtype text \<in> set offense_subtypes" using d(1) by (metis in_set_conv_decomp)
  ultimately show "detect_crime_subtype text = s" using top by fastforce
qed


theorem detect_crime_subtype_first_maximal_witness:
  "(\<exists>s \<in> set offense_subtypes. subtype_score ''armed assault'' s \<noteq> 0) \<and>
   (\<exists>pre post. offense_subtypes = pre @ detect_crime_subtype ''armed assault'' # post \<and>
      (\<forall>s \<in> set pre. subtype_score ''armed assault'' s < subtype_score ''armed assault'' (detect_crime_subtype ''armed assault'')) \<and>
      (\<forall>s \<in> set post. subtype_score ''armed assault'' s \<le> subtype_score ''armed assault'' (detect_crime_subtype ''armed assault'')))"
proof -
  have h: "\<exists>s \<in> set offense_subtypes. subtype_score ''armed assault'' s \<noteq> 0"
    by code_simp
  with detect_crime_subtype_first_maximal [of "''armed assault''"] show ?thesis
    by auto
qed

text \<open>
  The text \<open>murder robbery\<close> scores one for murder and one for robbery and zero for the
  other two: two subtypes tie for the highest count, and the result is \<open>murder\<close>.
\<close>

theorem detect_crime_subtype_tie_counterexample:
  "subtype_score ''murder robbery'' ''murder'' = 1 \<and>
   subtype_score ''murder robbery'' ''theft'' = 0 \<and>
   subtype_score ''murder robbery'' ''robbery'' = 1 \<and>
   subtype_score ''murder robbery'' ''assault'' = 0 \<and>
   detect_crime_subtype ''murder robbery'' = ''murder'' \<and>
   detect_crime_subtype ''murder robbery'' \<noteq> ''theft''"
  by code_simp

section \<open>Properties of the knowledge graph\<close>

lemma entities_get_dict_set:
  "entities_get (dict_set es k vs) k' = (if k' = k then vs else entities_get es k')"
  by (induction es k vs rule: dict_set.induct) (auto simp: entities_get_def)

text \<open>What holds of \<open>add_entity\<close> for every value: a blank value changes nothing, and a
  value that is added is stored stripped, at the end of its type's list.\<close>

lemma add_entity_blank: "strip v = [] \<Longrightarrow> add_entity kg entity_type v = kg"
  by (simp add: add_entity_def)

lemma add_entity_present:
  "v \<in> set (entities_get (entities kg) entity_type) \<Longrightarrow> add_entity kg entity_type v = kg"
  by (simp add: add_entity_def)

lemma add_entity_appends:
  "strip v \<noteq> [] \<Longrightarrow> v \<notin> set (entities_get (entities kg) entity_type) \<Longrightarrow>
     entities_get (entities (add_entity kg entity_type v)) entity_type
       = entities_get (entities kg) entity_type @ [strip v]"
proof -
  assume a: "strip v \<noteq> []" "v \<notin> set (entities_get (entities kg) entity_type)"
  from a(1) have "v \<noteq> []" by (auto simp: strip_def)
  with a show ?thesis by (simp add: add_entity_def entities_get_dict_set)
qed

text \<open>For a value with no white space at its ends, which is what the extraction produces, the
  second of two equal calls changes nothing.\<close>

lemma add_entity_stripped_twice:
  "strip v = v \<Longrightarrow> add_entity (add_entity kg entity_type v) entity_type v = add_entity kg entity_type v"
  by (simp add: add_entity_def entities_get_dict_set)

text \<open>
  C2 at the value \<open>' a '\<close> (the letter a between two spaces), added twice to the locations
  of a new graph. The membership test of \<open>add_entity\<close> looks for the value as given, with
  its spaces, while the stored value is stripped: the second call does not find \<open>' a '\<close>
  in \<open>['a']\<close> and appends \<open>'a'\<close> again, so the second call changes the state and the list
  holds a duplicate.
\<close>

theorem add_entity_padded_twice:
  "entities (add_entity new_kg ''locations'' '' a '') = [(''locations'', [''a''])] \<and>
   entities (add_entity (add_entity new_kg ''locations'' '' a '') ''locations'' '' a '')
     = [(''locations'', [''a'', ''a''])] \<and>
   \<not> distinct (entities_get
       (entities (add_entity (add_entity new_kg ''locations'' '' a '') ''locations'' '' a ''))
       ''locations'')"
  by code_simp

section \<open>Properties of the question generator\<close>

lemma question_loop_find:
  "question_loop templates asked = find (\<lambda>q. q \<notin> set asked) (all_questions templates)"
proof (induction templates)
  case Nil
  show ?case by (simp add: all_questions_def)
next
  case (Cons t templates)
  obtain category questions where t: "t = (category, questions)" by (cases t)
  have find_append: "\<And>P xs ys. find P (xs @ ys) = (case find P xs of None \<Rightarrow> find P ys | Some x \<Rightarrow> Some x)"
    subgoal for P xs ys by (induction xs) auto
    done
  have find_filter: "\<And>P xs. find P xs = (case filter P xs of [] \<Rightarrow> None | x # _ \<Rightarrow> Some x)"
    subgoal for P xs by (induction xs) auto
    done
  show ?case using Cons.IH
    by (simp add: t all_questions_def find_append find_filter [of _ questions] split: list.splits)
qed

lemma generate_next_find:
  "generate_next case_type kg asked =
     find (\<lambda>q. q \<notin> set asked) (all_questions (resolve_templates case_type kg))"
  by (simp add: generate_next_def question_loop_find)

lemma generate_next_fresh:
  "generate_next case_type kg asked = Some q \<Longrightarrow>
     q \<notin> set asked \<and> q \<in> set (all_questions (resolve_templates case_type kg))"
  by (auto simp: generate_next_find find_Some_iff)

lemma generate_next_None:
  "generate_next case_type kg asked = None \<longleftrightarrow>
     set (all_questions (resolve_templates case_type kg)) \<subseteq> set asked"
  by (auto simp: generate_next_find find_None_iff)

lemma ask_repeatedly_exhausts:
  "card (set (all_questions (resolve_templates case_type kg)) - set asked) \<le> n \<Longrightarrow>
     generate_next case_type kg (ask_repeatedly n case_type kg asked) = None"
proof (induction n arbitrary: asked)
  case 0
  then have "set (all_questions (resolve_templates case_type kg)) - set asked = {}" by simp
  then show ?case by (simp add: generate_next_None)
next
  case (Suc n)
  let ?qs = "set (all_questions (resolve_templates case_type kg))"
  show ?case
  proof (cases "generate_next case_type kg asked")
    case None
    then show ?thesis by simp
  next
    case (Some q)
    from generate_next_fresh [OF Some] have q: "q \<notin> set asked" "q \<in> ?qs" by simp_all
    have "?qs - set (asked @ [q]) = (?qs - set asked) - {q}" by auto
    moreover have "q \<in> ?qs - set asked" using q by simp
    ultimately have "card (?qs - set (asked @ [q])) < card (?qs - set asked)"
      by (metis List.finite_set card_Diff1_less finite_Diff)
    with Suc.prems have "card (?qs - set (asked @ [q])) \<le> n" by simp
    from Suc.IH [OF this] Some show ?thesis by simp
  qed
qed

lemma ask_repeatedly_grows: "set asked \<subseteq> set (ask_repeatedly n case_type kg asked)"
proof (induction n arbitrary: asked)
  case 0
  show ?case by simp
next
  case (Suc n)
  show ?case
  proof (cases "generate_next case_type kg asked")
    case None
    then show ?thesis by simp
  next
    case (Some q)
    with Suc.IH [of "asked @ [q]"] show ?thesis by auto
  qed
qed


text \<open>
  C3. For every case type, graph and asked list: a question returned by \<open>generate_next\<close> is
  not in the asked list; the result is the first question, in the declared order of the
  topics of the resolved template set and of the questions within a topic, that is not in
  the asked list; the result is none exactly when every question of every topic of the
  resolved template set is in the asked list. Once the result is none it stays none for
  every larger asked list, and when each returned question is recorded as asked before the
  next call, as many calls as the template set has questions reach the result none.
\<close>

theorem generate_next_spec:
  "(\<forall>q. generate_next case_type kg asked = Some q \<longrightarrow> q \<notin> set asked) \<and>
   generate_next case_type kg asked =
     find (\<lambda>q. q \<notin> set asked) (all_questions (resolve_templates case_type kg)) \<and>
   (generate_next case_type kg asked = None \<longleftrightarrow>
      (\<forall>q \<in> set (all_questions (resolve_templates case_type kg)). q \<in> set asked)) \<and>
   (\<forall>asked'. generate_next case_type kg asked = None \<and> set asked \<subseteq> set asked' \<longrightarrow>
      generate_next case_type kg asked' = None) \<and>
   generate_next case_type kg
     (ask_repeatedly (length (all_questions (resolve_templates case_type kg))) case_type kg asked) = None"
proof (intro conjI allI impI)
  fix q assume "generate_next case_type kg asked = Some q"
  then show "q \<notin> set asked" using generate_next_fresh by blast
next
  show "generate_next case_type kg asked =
     find (\<lambda>q. q \<notin> set asked) (all_questions (resolve_templates case_type kg))"
    by (rule generate_next_find)
next
  show "generate_next case_type kg asked = None \<longleftrightarrow>
      (\<forall>q \<in> set (all_questions (resolve_templates case_type kg)). q \<in> set asked)"
    by (auto simp: generate_next_None)
next
  fix asked' assume "generate_next case_type kg asked = None \<and> set asked \<subseteq> set asked'"
  then show "generate_next case_type kg asked' = None"
    unfolding generate_next_None by blast
next
  let ?qs = "all_questions (resolve_templates case_type kg)"
  have "card (set ?qs - set asked) \<le> card (set ?qs)"
    by (simp add: card_mono)
  also have "\<dots> \<le> length ?qs" by (rule card_length)
  finally show "generate_next case_type kg (ask_repeatedly (length ?qs) case_type kg asked) = None"
    by (rule ask_repeatedly_exhausts)
qed


theorem generate_next_spec_witness:
  "generate_next ''criminal'' (set_context new_kg ''criminal_subtype'' ''robbery'')
       [''When did the robbery occur?'']
     = Some ''Where exactly did it happen? (street / shop / home)'' \<and>
   ''Where exactly did it happen? (street / shop / home)'' \<notin> set [''When did the robbery occur?''] \<and>
   generate_next ''general'' new_kg
       [''Is this matter urgent?'', ''Please describe your legal issue in detail'',
        ''Who are the parties involved?'', ''When did this issue arise?'',
        ''Do you have any relevant documents?''] = None \<and>
   generate_next ''general'' new_kg
       [''Is this matter urgent?'', ''Please describe your legal issue in detail'', ''extra'',
        ''Who are the parties involved?'', ''When did this issue arise?'',
        ''Do you have any relevant documents?''] = None"
proof -
  let ?kg = "set_context new_kg ''criminal_subtype'' ''robbery''"
  let ?asked = "[''Is this matter urgent?'', ''Please describe your legal issue in detail'',
        ''Who are the parties involved?'', ''When did this issue arise?'',
        ''Do you have any relevant documents?'']"
  let ?asked' = "[''Is this matter urgent?'', ''Please describe your legal issue in detail'', ''extra'',
        ''Who are the parties involved?'', ''When did this issue arise?'',
        ''Do you have any relevant documents?'']"
  have a: "generate_next ''criminal'' ?kg [''When did the robbery occur?'']
      = Some ''Where exactly did it happen? (street / shop / home)''"
    by code_simp
  have b: "\<forall>q \<in> set (all_questions (resolve_templates ''general'' new_kg)). q \<in> set ?asked"
    by code_simp
  have c: "set ?asked \<subseteq> set ?asked'"
    by auto
  from generate_next_spec [of "''criminal''" ?kg "[''When did the robbery occur?'']"] a
  have 1: "''Where exactly did it happen? (street / shop / home)'' \<notin> set [''When did the robbery occur?'']"
    by blast
  from generate_next_spec [of "''general''" new_kg ?asked] b
  have 2: "generate_next ''general'' new_kg ?asked = None"
    and 3: "\<forall>asked'. generate_next ''general'' new_kg ?asked = None \<and> set ?asked \<subseteq> set asked' \<longrightarrow>
      generate_next ''general'' new_kg asked' = None"
    by blast+
  from 2 3 c have 4: "generate_next ''general'' new_kg ?asked' = None"
    by blast
  from a 1 2 4 show ?thesis by blast
qed

section \<open>Properties of the extraction\<close>

text \<open>The matcher on texts that show the word boundaries, the bounds of the repetitions,
  backtracking out of a greedy repetition, the case-insensitive month names and the
  empty matches of \<open>re.findall\<close>; the results are those of the module \<open>re\<close>.\<close>

lemma findall_example_numeric_dates:
  "findall numeric_date_pattern ''112/01/2024 1/2/20245 1/2/345 1/2/3 01-02/99''
     = [''1/2/345'', ''01-02/99'']"
  by code_simp

lemma findall_example_month_dates:
  "findall month_date_pattern ''on january 5, 2024 and March  12, JANUARY 5''
     = [''january 5, 2024'', ''March  12'', ''JANUARY 5'']"
  by code_simp

lemma findall_example_values:
  "findall value_pattern (''x'' @ rupee @ '' 500 and '' @ rupee @ ''100 Rs.1,2,'')
     = [rupee @ '' 500'', ''Rs.1,2'']"
  by code_simp

lemma findall_example_caps:
  "findall caps_pattern ''Hello World Foo Bar Baz aBc ABc Xy_z Ab1 Ab\<newline>Cd''
     = [''Hello World Foo'', ''Bar Baz'', ''Ab\<newline>Cd'']"
  by code_simp

lemma findall_example_empty_matches:
  "findall (Many 0 (Chr CHR ''a'')) ''baac'' = [[], ''aa'', [], []]"
  by code_simp

lemma dedup_Nil: "dedup [] = []"
  by (simp add: dedup_def)

lemma dedup_snoc:
  "dedup (v @ [x]) = (if x \<in> set (dedup v) then dedup v else dedup v @ [x])"
  by (simp add: dedup_def)

lemma set_dedup: "set (dedup v) = set v"
  by (induction v rule: rev_induct) (auto simp: dedup_Nil dedup_snoc)

lemma distinct_dedup: "distinct (dedup v)"
  by (induction v rule: rev_induct) (auto simp: dedup_Nil dedup_snoc)

lemma length_dedup: "length (dedup v) \<le> length v"
  by (induction v rule: rev_induct) (auto simp: dedup_Nil dedup_snoc)

lemma first_occurrences_snoc:
  "first_occurrences (v @ [x]) = first_occurrences v @ (if x \<in> set v then [] else [x])"
proof -
  let ?n = "length v"
  have f: "filter (\<lambda>i. (v @ [x]) ! i \<notin> set (take i (v @ [x]))) [0..<?n]
         = filter (\<lambda>i. v ! i \<notin> set (take i v)) [0..<?n]"
    by (rule filter_cong) (auto simp: nth_append)
  have m: "map (nth (v @ [x])) (filter (\<lambda>i. v ! i \<notin> set (take i v)) [0..<?n])
         = map (nth v) (filter (\<lambda>i. v ! i \<notin> set (take i v)) [0..<?n])"
    by (rule map_cong) (auto simp: nth_append)
  have "first_occurrences (v @ [x])
      = map (nth (v @ [x])) (filter (\<lambda>i. (v @ [x]) ! i \<notin> set (take i (v @ [x]))) ([0..<?n] @ [?n]))"
    by (simp only: first_occurrences_def length_append_singleton upt_Suc_append [OF le0])
  also have "\<dots> = map (nth (v @ [x])) (filter (\<lambda>i. (v @ [x]) ! i \<notin> set (take i (v @ [x]))) [0..<?n])
      @ (if x \<in> set v then [] else [x])"
  proof -
    have t: "take ?n (v @ [x]) = v" by simp
    show ?thesis by (simp del: take_append add: t)
  qed
  also have "\<dots> = first_occurrences v @ (if x \<in> set v then [] else [x])"
    by (simp only: f m first_occurrences_def)
  finally show ?thesis .
qed

lemma dedup_first_occurrences: "dedup v = first_occurrences v"
proof (induction v rule: rev_induct)
  case Nil
  show ?case by (simp add: dedup_Nil first_occurrences_def)
next
  case (snoc x v)
  have "dedup (v @ [x]) = dedup v @ (if x \<in> set v then [] else [x])"
    by (simp add: dedup_snoc set_dedup)
  with snoc show ?case by (simp only: first_occurrences_snoc)
qed

lemma extract_entities_empty_text:
  "extract_entities [] =
     [(''dates'', []), (''locations'', []), (''values'', []), (''items'', []), (''parties'', [])]"
  by code_simp

lemma item_filter_empty:
  "\<forall>kw \<in> set item_keywords. \<not> is_in (lower kw) (lower text) \<Longrightarrow>
     filter (\<lambda>kw. is_in (lower kw) (lower text)) item_keywords = []"
  by (simp add: filter_empty_conv)


text \<open>
  C8. For every text, every list returned by the extraction is free of duplicates, and is
  its list of matches, capped, with every value kept at its first occurrence only: the
  dates are the first three numeric dates followed by all month-name dates (no cap on
  the combined list), the values the first three monetary values, the locations the first
  four capitalised sequences, the items the first four vocabulary terms found. So there
  are at most three values, four locations and four items, and at most three dates more
  than there are month-name dates. The empty text, and every text that no rule matches,
  gives five empty lists.
\<close>

theorem extract_entities_spec:
  "(\<forall>(k, v) \<in> set (extract_entities text). distinct v) \<and>
   entities_get (extract_entities text) ''dates''
     = first_occurrences (take 3 (findall numeric_date_pattern text) @ findall month_date_pattern text) \<and>
   entities_get (extract_entities text) ''values''
     = first_occurrences (take 3 (findall value_pattern text)) \<and>
   entities_get (extract_entities text) ''locations''
     = first_occurrences (take 4 (findall caps_pattern text)) \<and>
   entities_get (extract_entities text) ''items''
     = first_occurrences (take 4 (filter (\<lambda>kw. is_in (lower kw) (lower text)) item_keywords)) \<and>
   length (entities_get (extract_entities text) ''dates'') \<le> 3 + length (findall month_date_pattern text) \<and>
   length (entities_get (extract_entities text) ''values'') \<le> 3 \<and>
   length (entities_get (extract_entities text) ''locations'') \<le> 4 \<and>
   length (entities_get (extract_entities text) ''items'') \<le> 4 \<and>
   extract_entities [] =
     [(''dates'', []), (''locations'', []), (''values'', []), (''items'', []), (''parties'', [])] \<and>
   (findall numeric_date_pattern text = [] \<and> findall month_date_pattern text = [] \<and>
    findall value_pattern text = [] \<and> findall caps_pattern text = [] \<and>
    (\<forall>kw \<in> set item_keywords. \<not> is_in (lower kw) (lower text))
    \<longrightarrow> extract_entities text =
     [(''dates'', []), (''locations'', []), (''values'', []), (''items'', []), (''parties'', [])])"
proof -
  let ?dates = "take 3 (findall numeric_date_pattern text) @ findall month_date_pattern text"
  let ?vals = "take 3 (findall value_pattern text)"
  let ?locs = "take 4 (findall caps_pattern text)"
  let ?items = "take 4 (filter (\<lambda>kw. is_in (lower kw) (lower text)) item_keywords)"
  have ex: "extract_entities text =
      [(''dates'', dedup ?dates), (''locations'', dedup ?locs), (''values'', dedup ?vals),
       (''items'', dedup ?items), (''parties'', dedup [])]"
    by (simp add: extract_entities_def Let_def)
  have d: "entities_get (extract_entities text) ''dates'' = dedup ?dates"
    and v: "entities_get (extract_entities text) ''values'' = dedup ?vals"
    and l: "entities_get (extract_entities text) ''locations'' = dedup ?locs"
    and i: "entities_get (extract_entities text) ''items'' = dedup ?items"
    by (simp_all add: ex entities_get_def)
  have 1: "\<forall>(k, v) \<in> set (extract_entities text). distinct v"
    by (simp add: ex distinct_dedup)
  have "length (dedup ?dates) \<le> length ?dates" by (rule length_dedup)
  then have 2: "length (entities_get (extract_entities text) ''dates'') \<le> 3 + length (findall month_date_pattern text)"
    by (simp add: d)
  have "length (dedup ?vals) \<le> length ?vals" by (rule length_dedup)
  then have 3: "length (entities_get (extract_entities text) ''values'') \<le> 3"
    by (simp add: v)
  have "length (dedup ?locs) \<le> length ?locs" by (rule length_dedup)
  then have 4: "length (entities_get (extract_entities text) ''locations'') \<le> 4"
    by (simp add: l)
  have "length (dedup ?items) \<le> length ?items" by (rule length_dedup)
  then have 5: "length (entities_get (extract_entities text) ''items'') \<le> 4"
    by (simp add: i)
  have 6: "findall numeric_date_pattern text = [] \<and> findall month_date_pattern text = [] \<and>
    findall value_pattern text = [] \<and> findall caps_pattern text = [] \<and>
    (\<forall>kw \<in> set item_keywords. \<not> is_in (lower kw) (lower text))
    \<longrightarrow> extract_entities text =
     [(''dates'', []), (''locations'', []), (''values'', []), (''items'', []), (''parties'', [])]"
    by (simp add: ex item_filter_empty dedup_Nil)
  from 1 2 3 4 5 6 d v l i extract_entities_empty_text show ?thesis
    by (simp only: dedup_first_occurrences)
qed


theorem extract_entities_spec_witness:
  "findall value_pattern ''Rs 5, Rs 5 in Pune'' = [''Rs 5'', ''Rs 5''] \<and>
   entities_get (extract_entities ''Rs 5, Rs 5 in Pune'') ''values'' = [''Rs 5''] \<and>
   distinct (entities_get (extract_entities ''Rs 5, Rs 5 in Pune'') ''values'') \<and>
   extract_entities ''abc'' =
     [(''dates'', []), (''locations'', []), (''values'', []), (''items'', []), (''parties'', [])]"
proof -
  let ?t = "''Rs 5, Rs 5 in Pune''"
  have f: "findall value_pattern ?t = [''Rs 5'', ''Rs 5'']"
    by code_simp
  have fo: "first_occurrences (take 3 [''Rs 5'', ''Rs 5'']) = [''Rs 5'']"
    by code_simp
  from extract_entities_spec [of ?t]
  have "entities_get (extract_entities ?t) ''values'' = first_occurrences (take 3 (findall value_pattern ?t))"
    by blast
  then have v: "entities_get (extract_entities ?t) ''values'' = [''Rs 5'']"
    by (simp only: f fo)
  have n: "findall numeric_date_pattern ''abc'' = [] \<and> findall month_date_pattern ''abc'' = [] \<and>
    findall value_pattern ''abc'' = [] \<and> findall caps_pattern ''abc'' = [] \<and>
    (\<forall>kw \<in> set item_keywords. \<not> is_in (lower kw) (lower ''abc''))"
    by code_simp
  from extract_entities_spec [of "''abc''"] n
  have e: "extract_entities ''abc'' =
     [(''dates'', []), (''locations'', []), (''values'', []), (''items'', []), (''parties'', [])]"
    by blast
  from f v e show ?thesis by simp
qed

text \<open>
  C10. For every text the mapping returned by the extraction has the five keys dates,
  locations, values, items and parties, in this order, and the list under \<open>parties\<close> is
  empty.
\<close>

theorem extract_entities_parties:
  "map_of (extract_entities text) ''parties'' = Some [] \<and>
   map fst (extract_entities text) = [''dates'', ''locations'', ''values'', ''items'', ''parties'']"
  by (simp add: extract_entities_def Let_def dedup_Nil)


section \<open>Properties of the reports\<close>

lemma join_stamp5:
  "\<exists>pre post. \<forall>now. join sep (l1 # l2 # l3 # l4 # l5 # (a @ now) # y # ys) = pre @ a @ now @ sep @ post"
  by (intro exI [of _ "l1 @ sep @ l2 @ sep @ l3 @ sep @ l4 @ sep @ l5 @ sep"] exI [of _ "join sep (y # ys)"]) simp

lemma join_stamp6:
  "\<exists>pre post. \<forall>now. join sep (l1 # l2 # l3 # l4 # l5 # l6 # (a @ now) # y # ys) = pre @ a @ now @ sep @ post"
  by (intro exI [of _ "l1 @ sep @ l2 @ sep @ l3 @ sep @ l4 @ sep @ l5 @ sep @ l6 @ sep"] exI [of _ "join sep (y # ys)"]) simp

lemma template_report_stamp:
  "\<exists>pre post. \<forall>now. generate_template_report now case_type subtype situation facts
      = pre @ ''Generated: '' @ now @ nl @ post"
  unfolding generate_template_report_def Let_def by (rule join_stamp6)

lemma robbery_report_stamp:
  "\<exists>pre post. \<forall>now. analyze_robbery_case now situation dates locations vals items facts
      = pre @ ''Generated: '' @ now @ nl @ post"
  unfolding analyze_robbery_case_def Let_def by (rule join_stamp5)

lemma property_report_stamp:
  "\<exists>pre post. \<forall>now. analyze_property_case now situation dates locations vals facts
      = pre @ ''Generated: '' @ now @ nl @ post"
  unfolding analyze_property_case_def Let_def by (rule join_stamp5)

lemma enhanced_report_stamp:
  "\<exists>pre post. \<forall>now. generate_enhanced_report now case_type subtype situation facts kg
      = pre @ ''Generated: '' @ now @ nl @ post"
proof -
  let ?dates = "entities_get (entities kg) ''dates''"
  let ?locations = "entities_get (entities kg) ''locations''"
  let ?vals = "entities_get (entities kg) ''values''"
  let ?items = "entities_get (entities kg) ''items''"
  consider (robbery) "case_type = ''criminal'' \<and> subtype = ''robbery''"
    | (property) "case_type = ''property''"
    | (other) "\<not> (case_type = ''criminal'' \<and> subtype = ''robbery'')" "case_type \<noteq> ''property''"
    by blast
  then show ?thesis
  proof cases
    case robbery
    then have "\<forall>now. generate_enhanced_report now case_type subtype situation facts kg
        = analyze_robbery_case now situation ?dates ?locations ?vals ?items facts"
      by (simp add: generate_enhanced_report_def Let_def)
    with robbery_report_stamp [of situation ?dates ?locations ?vals ?items facts]
    show ?thesis by simp
  next
    case property
    then have "\<forall>now. generate_enhanced_report now case_type subtype situation facts kg
        = analyze_property_case now situation ?dates ?locations ?vals facts"
      by (simp add: generate_enhanced_report_def Let_def)
    with property_report_stamp [of situation ?dates ?locations ?vals facts]
    show ?thesis by simp
  next
    case other
    note defs = generate_enhanced_report_def Let_def analyze_theft_case_def
          analyze_murder_case_def analyze_assault_case_def analyze_family_case_def
          analyze_contract_case_def
    have "\<exists>c s. \<forall>now. generate_enhanced_report now case_type subtype situation facts kg
        = generate_template_report now c s situation facts"
    proof (cases "case_type = ''criminal''")
      case True
      with other(1) have nr: "subtype \<noteq> ''robbery''" by simp
      show ?thesis
      proof (cases "subtype = ''theft'' \<or> subtype = ''murder'' \<or> subtype = ''assault''")
        case True
        then show ?thesis
        proof (elim disjE)
          assume "subtype = ''theft''"
          with \<open>case_type = ''criminal''\<close> have "\<forall>now. generate_enhanced_report now case_type subtype situation facts kg
            = generate_template_report now ''criminal'' ''theft'' situation facts"
            by (simp add: defs)
          then show ?thesis by blast
        next
          assume "subtype = ''murder''"
          with \<open>case_type = ''criminal''\<close> have "\<forall>now. generate_enhanced_report now case_type subtype situation facts kg
            = generate_template_report now ''criminal'' ''murder'' situation facts"
            by (simp add: defs)
          then show ?thesis by blast
        next
          assume "subtype = ''assault''"
          with \<open>case_type = ''criminal''\<close> have "\<forall>now. generate_enhanced_report now case_type subtype situation facts kg
            = generate_template_report now ''criminal'' ''assault'' situation facts"
            by (simp add: defs)
          then show ?thesis by blast
        qed
      next
        case False
        with nr \<open>case_type = ''criminal''\<close> have "\<forall>now. generate_enhanced_report now case_type subtype situation facts kg
            = generate_template_report now case_type subtype situation facts"
          by (simp add: defs)
        then show ?thesis by blast
      qed
    next
      case False
      show ?thesis
      proof (cases "case_type = ''family'' \<or> case_type = ''contract''")
        case True
        then show ?thesis
        proof
          assume "case_type = ''family''"
          then have "\<forall>now. generate_enhanced_report now case_type subtype situation facts kg
            = generate_template_report now ''family'' ''family'' situation facts"
            by (simp add: defs)
          then show ?thesis by blast
        next
          assume "case_type = ''contract''"
          then have "\<forall>now. generate_enhanced_report now case_type subtype situation facts kg
            = generate_template_report now ''contract'' ''contract'' situation facts"
            by (simp add: defs)
          then show ?thesis by blast
        qed
      next
        case nf: False
        with False other(2) have "\<forall>now. generate_enhanced_report now case_type subtype situation facts kg
            = generate_template_report now case_type subtype situation facts"
          by (simp add: defs)
        then show ?thesis by blast
      qed
    qed
    then obtain c s where "\<forall>now. generate_enhanced_report now case_type subtype situation facts kg
        = generate_template_report now c s situation facts" by blast
    with template_report_stamp [of c s situation facts]
    show ?thesis by simp
  qed
qed

lemma analyze_stamp:
  "\<exists>pre post. \<forall>now. analyze now case_type kg = pre @ ''Generated: '' @ now @ nl @ post"
  unfolding analyze_def Let_def by (rule enhanced_report_stamp)

lemma analyze_nonempty: "analyze now case_type kg \<noteq> []"
proof -
  from analyze_stamp obtain pre post where
    "\<forall>now. analyze now case_type kg = pre @ ''Generated: '' @ now @ nl @ post" by blast
  then have "analyze now case_type kg = pre @ ''Generated: '' @ now @ nl @ post" by blast
  then show ?thesis by simp
qed

section \<open>Properties of the sessions\<close>

lemma templates_questions_nonempty:
  "\<forall>(k, templates) \<in> set QUESTION_TEMPLATES. \<forall>q \<in> set (all_questions templates). q \<noteq> []"
  by code_simp

lemma templates_get_nonempty: "q \<in> set (all_questions (templates_get key fallback)) \<Longrightarrow> q \<noteq> []"
proof -
  assume q: "q \<in> set (all_questions (templates_get key fallback))"
  have mem: "\<And>k t. map_of QUESTION_TEMPLATES k = Some t \<Longrightarrow> \<forall>q \<in> set (all_questions t). q \<noteq> []"
  proof -
    fix k t assume "map_of QUESTION_TEMPLATES k = Some t"
    then have "(k, t) \<in> set QUESTION_TEMPLATES" by (rule map_of_SomeD)
    with templates_questions_nonempty show "\<forall>q \<in> set (all_questions t). q \<noteq> []" by blast
  qed
  show ?thesis
  proof (cases "map_of QUESTION_TEMPLATES key")
    case (Some t)
    with q mem [OF Some] show ?thesis by (simp add: templates_get_def)
  next
    case None
    show ?thesis
    proof (cases "map_of QUESTION_TEMPLATES fallback")
      case (Some t)
      with q None mem [OF Some] show ?thesis by (simp add: templates_get_def)
    next
      case n: None
      with q None show ?thesis by (simp add: templates_get_def all_questions_def)
    qed
  qed
qed

lemma generate_next_nonempty: "generate_next case_type kg asked = Some q \<Longrightarrow> q \<noteq> []"
proof -
  assume "generate_next case_type kg asked = Some q"
  then have "q \<in> set (all_questions (resolve_templates case_type kg))"
    using generate_next_fresh by blast
  then show ?thesis
    by (auto simp: resolve_templates_def Let_def dest: templates_get_nonempty split: if_splits option.splits)
qed

lemma record_answer_fields:
  "query_history (record_answer state answer) = query_history state @ [answer]"
  "turns_done (record_answer state answer) = turns_done state + 1"
  "max_turns (record_answer state answer) = max_turns state"
  "session_case_type (record_answer state answer) = session_case_type state"
  "asked_questions (record_answer state answer) = asked_questions state"
  "finished (record_answer state answer) = finished state"
  "entities (session_kg (record_answer state answer))
     = entities (add_extracted (session_kg state) (extract_entities answer))"
  by (simp_all add: record_answer_def Let_def set_context_def)

lemma answer_session_unknown:
  "sessions sid = None \<Longrightarrow>
     answer_session now sessions sid answer = (sessions, Inl (KeyError ''session not found''))"
  by (simp add: answer_session_def)

text \<open>The two ways out of \<open>answer_session\<close> for a known session.\<close>

lemma answer_session_ask:
  assumes "sessions sid = Some state"
    and "turns_done state + 1 < max_turns state"
    and "generate_next (session_case_type state) (session_kg (record_answer state answer))
           (asked_questions state) = Some q"
  shows "answer_session now sessions sid answer =
     (sessions(sid \<mapsto> (record_answer state answer)\<lparr>asked_questions := asked_questions state @ [q]\<rparr>),
      Inr (Ask q (analyze now (session_case_type state) (session_kg (record_answer state answer)))))"
  using assms generate_next_nonempty [OF assms(3)]
  by (simp add: answer_session_def Let_def record_answer_fields)

lemma answer_session_final:
  assumes "sessions sid = Some state"
    and "\<not> (turns_done state + 1 < max_turns state \<and>
           generate_next (session_case_type state) (session_kg (record_answer state answer))
             (asked_questions state) \<noteq> None)"
  shows "answer_session now sessions sid answer =
     (sessions(sid \<mapsto> (record_answer state answer)\<lparr>finished := True\<rparr>),
      Inr (Final (analyze now (session_case_type state) (session_kg (record_answer state answer))) []))"
  using assms
  by (auto simp: answer_session_def Let_def record_answer_fields split: option.splits)

text \<open>
  C4. For every known session and every answer, \<open>answer_session\<close> stores a new state of
  the session in which the answer is appended to the history and \<open>turns_done\<close> is
  incremented. If the incremented \<open>turns_done\<close> is below \<open>max_turns\<close> and the template set
  resolved for the updated graph has a question that is not in the asked list, the next
  such question is appended to the asked list and returned with action \<open>ask\<close> and the
  report; otherwise the session is marked finished and the result has action \<open>final\<close>, the
  report and an empty \<open>structured\<close>. In particular, when the incremented \<open>turns_done\<close>
  equals \<open>max_turns\<close> the action is \<open>final\<close> and the report is not empty.
\<close>

theorem answer_session_spec:
  assumes "sessions sid = Some state"
  shows "\<exists>state'. fst (answer_session now sessions sid answer) = sessions(sid \<mapsto> state') \<and>
     query_history state' = query_history state @ [answer] \<and>
     turns_done state' = turns_done state + 1 \<and>
     max_turns state' = max_turns state \<and>
     session_case_type state' = session_case_type state \<and>
     (if turns_done state' < max_turns state \<and>
         (\<exists>q \<in> set (all_questions (resolve_templates (session_case_type state) (session_kg state'))).
             q \<notin> set (asked_questions state))
      then \<exists>q. generate_next (session_case_type state) (session_kg state') (asked_questions state) = Some q \<and>
             snd (answer_session now sessions sid answer)
               = Inr (Ask q (analyze now (session_case_type state) (session_kg state'))) \<and>
             asked_questions state' = asked_questions state @ [q] \<and>
             finished state' = finished state
      else snd (answer_session now sessions sid answer)
               = Inr (Final (analyze now (session_case_type state) (session_kg state')) []) \<and>
           asked_questions state' = asked_questions state \<and>
           finished state') \<and>
     (turns_done state' = max_turns state \<longrightarrow>
        (\<exists>r. snd (answer_session now sessions sid answer) = Inr r \<and>
           next_action r = ''final'' \<and> report r \<noteq> []))"
proof -
  let ?s1 = "record_answer state answer"
  let ?ct = "session_case_type state"
  let ?unseen = "\<exists>q \<in> set (all_questions (resolve_templates ?ct (session_kg ?s1))). q \<notin> set (asked_questions state)"
  have unseen: "?unseen \<longleftrightarrow> generate_next ?ct (session_kg ?s1) (asked_questions state) \<noteq> None"
    by (auto simp: generate_next_None)
  show ?thesis
  proof (cases "turns_done state + 1 < max_turns state \<and> ?unseen")
    case True
    then obtain q where q: "generate_next ?ct (session_kg ?s1) (asked_questions state) = Some q"
      using unseen by auto
    from True have lt: "turns_done state + 1 < max_turns state" by simp
    let ?s2 = "?s1\<lparr>asked_questions := asked_questions state @ [q]\<rparr>"
    have run: "answer_session now sessions sid answer =
        (sessions(sid \<mapsto> ?s2), Inr (Ask q (analyze now ?ct (session_kg ?s1))))"
      by (rule answer_session_ask [where sessions = sessions and sid = sid, OF assms lt q])
    show ?thesis
      by (rule exI [of _ ?s2]) (use True lt q in \<open>simp add: run record_answer_fields\<close>)
  next
    case False
    let ?s2 = "?s1\<lparr>finished := True\<rparr>"
    have run: "answer_session now sessions sid answer =
        (sessions(sid \<mapsto> ?s2), Inr (Final (analyze now ?ct (session_kg ?s1)) []))"
      by (rule answer_session_final [where sessions = sessions and sid = sid, OF assms]) (use False unseen in simp)
    show ?thesis
      by (rule exI [of _ ?s2]) (use False in \<open>simp add: run record_answer_fields analyze_nonempty\<close>)
  qed
qed

theorem answer_session_spec_witness:
  "(\<exists>r. snd flow_answer1 = Inr (Ask ''Where exactly did it happen? (street / shop / home)'' r)) \<and>
   (\<exists>state'. fst flow_answer1 flow_sid = Some state' \<and> turns_done state' = 1 \<and>
      asked_questions state' = [''When did the robbery occur?'',
        ''Where exactly did it happen? (street / shop / home)'']) \<and>
   (\<exists>r. snd flow_answer3 = Inr r \<and> next_action r = ''final'' \<and> report r \<noteq> []) \<and>
   (\<exists>state'. fst flow_answer3 flow_sid = Some state' \<and> turns_done state' = 3 \<and> finished state')"
proof -
  let ?q1 = "''When did the robbery occur?''"
  let ?q2 = "''Where exactly did it happen? (street / shop / home)''"
  have "map_option (\<lambda>s. (turns_done s, max_turns s, asked_questions s)) (fst flow_started flow_sid)
      = Some (0, 3, [?q1])"
    by code_simp
  then obtain state0 where s0: "fst flow_started flow_sid = Some state0" "turns_done state0 = 0"
      "max_turns state0 = 3" "asked_questions state0 = [?q1]"
    by auto
  from answer_session_spec [where sessions = "fst flow_started" and sid = flow_sid,
      OF s0(1), of flow_now "''around 5pm yesterday''"]
  obtain state1 where s1: "fst flow_answer1 = (fst flow_started)(flow_sid \<mapsto> state1)"
      "turns_done state1 = turns_done state0 + 1"
      "session_case_type state1 = session_case_type state0"
      "if turns_done state1 < max_turns state0 \<and>
         (\<exists>q \<in> set (all_questions (resolve_templates (session_case_type state0) (session_kg state1))).
             q \<notin> set (asked_questions state0))
       then \<exists>q. generate_next (session_case_type state0) (session_kg state1) (asked_questions state0) = Some q \<and>
             snd flow_answer1 = Inr (Ask q (analyze flow_now (session_case_type state0) (session_kg state1))) \<and>
             asked_questions state1 = asked_questions state0 @ [q] \<and>
             finished state1 = finished state0
       else snd flow_answer1 = Inr (Final (analyze flow_now (session_case_type state0) (session_kg state1)) []) \<and>
           asked_questions state1 = asked_questions state0 \<and>
           finished state1"
    unfolding flow_answer1_def by blast
  have "map_option (\<lambda>s. generate_next (session_case_type s) (session_kg s) [?q1]) (fst flow_answer1 flow_sid)
      = Some (Some ?q2)"
    by code_simp
  with s1(1) have g: "generate_next (session_case_type state1) (session_kg state1) [?q1] = Some ?q2"
    by simp
  then have "\<exists>q \<in> set (all_questions (resolve_templates (session_case_type state1) (session_kg state1))). q \<notin> set [?q1]"
    using generate_next_fresh by blast
  with s1 s0 g have ask: "snd flow_answer1 = Inr (Ask ?q2 (analyze flow_now (session_case_type state0) (session_kg state1)))"
      "asked_questions state1 = [?q1, ?q2]" "turns_done state1 = 1"
    by auto
  have "map_option (\<lambda>s. (turns_done s, max_turns s)) (fst flow_answer2 flow_sid) = Some (2, 3)"
    by code_simp
  then obtain state2 where s2: "fst flow_answer2 flow_sid = Some state2" "turns_done state2 = 2" "max_turns state2 = 3"
    by auto
  from answer_session_spec [where sessions = "fst flow_answer2" and sid = flow_sid,
      OF s2(1), of flow_now "''yes knife was used''"] s2(2,3)
  have fin: "(\<exists>r. snd flow_answer3 = Inr r \<and> next_action r = ''final'' \<and> report r \<noteq> []) \<and>
   (\<exists>state'. fst flow_answer3 flow_sid = Some state' \<and> turns_done state' = 3 \<and> finished state')"
    unfolding flow_answer3_def by auto
  from ask s1(1) fin show ?thesis by simp
qed

text \<open>
  C1, as the code has it. \<open>answer_session\<close> does not read the flag \<open>finished\<close>: for every
  session in the store, finished or not, it appends the answer to the history, increments
  \<open>turns_done\<close>, adds the entities extracted from the answer to the graph of the session and
  returns a result. The flag, once true, stays true.
\<close>

theorem answer_session_ignores_finished:
  assumes "sessions sid = Some state"
  shows "\<exists>state'. fst (answer_session now sessions sid answer) = sessions(sid \<mapsto> state') \<and>
     query_history state' = query_history state @ [answer] \<and>
     turns_done state' = turns_done state + 1 \<and>
     entities (session_kg state')
       = entities (add_extracted (session_kg state) (extract_entities answer)) \<and>
     (finished state \<longrightarrow> finished state') \<and>
     (\<exists>r. snd (answer_session now sessions sid answer) = Inr r)"
proof -
  let ?s1 = "record_answer state answer"
  let ?ct = "session_case_type state"
  show ?thesis
  proof (cases "turns_done state + 1 < max_turns state \<and>
      generate_next ?ct (session_kg ?s1) (asked_questions state) \<noteq> None")
    case True
    then obtain q where q: "generate_next ?ct (session_kg ?s1) (asked_questions state) = Some q"
      by auto
    from True have lt: "turns_done state + 1 < max_turns state" by simp
    let ?s2 = "?s1\<lparr>asked_questions := asked_questions state @ [q]\<rparr>"
    have run: "answer_session now sessions sid answer =
        (sessions(sid \<mapsto> ?s2), Inr (Ask q (analyze now ?ct (session_kg ?s1))))"
      by (rule answer_session_ask [where sessions = sessions and sid = sid, OF assms lt q])
    show ?thesis
      by (rule exI [of _ ?s2]) (simp add: run record_answer_fields)
  next
    case False
    let ?s2 = "?s1\<lparr>finished := True\<rparr>"
    have run: "answer_session now sessions sid answer =
        (sessions(sid \<mapsto> ?s2), Inr (Final (analyze now ?ct (session_kg ?s1)) []))"
      by (rule answer_session_final [where sessions = sessions and sid = sid, OF assms False])
    show ?thesis
      by (rule exI [of _ ?s2]) (simp add: run record_answer_fields)
  qed
qed

theorem answer_session_ignores_finished_witness:
  "(\<exists>state'. fst (answer_session flow_now (fst flow_answer3) flow_sid ''It was in Mumbai'') flow_sid
       = Some state' \<and>
     turns_done state' = 4 \<and> finished state') \<and>
   (\<exists>state'. fst flow_answer1 flow_sid = Some state' \<and>
     query_history state' = [''robbery happened yesterday at my shop'', ''around 5pm yesterday''] \<and>
     turns_done state' = 1)"
proof -
  have "map_option (\<lambda>s. (finished s, turns_done s)) (fst flow_answer3 flow_sid) = Some (True, 3)"
    by code_simp
  then obtain state where s: "fst flow_answer3 flow_sid = Some state" "finished state" "turns_done state = 3"
    by auto
  from answer_session_ignores_finished [where sessions = "fst flow_answer3" and sid = flow_sid,
      OF s(1), of flow_now "''It was in Mumbai''"] s(2,3)
  have 1: "\<exists>state'. fst (answer_session flow_now (fst flow_answer3) flow_sid ''It was in Mumbai'') flow_sid
       = Some state' \<and> turns_done state' = 4 \<and> finished state'"
    by auto
  have "map_option (\<lambda>s. (finished s, turns_done s, query_history s)) (fst flow_started flow_sid)
      = Some (False, 0, [''robbery happened yesterday at my shop''])"
    by code_simp
  then obtain state0 where s0: "fst flow_started flow_sid = Some state0" "\<not> finished state0"
      "turns_done state0 = 0" "query_history state0 = [''robbery happened yesterday at my shop'']"
    by auto
  from answer_session_ignores_finished [where sessions = "fst flow_started" and sid = flow_sid,
      OF s0(1), of flow_now "''around 5pm yesterday''"] s0(3,4)
  have 2: "\<exists>state'. fst flow_answer1 flow_sid = Some state' \<and>
     query_history state' = [''robbery happened yesterday at my shop'', ''around 5pm yesterday''] \<and>
     turns_done state' = 1"
    unfolding flow_answer1_def by auto
  from 1 2 show ?thesis by blast
qed

text \<open>
  After the three answers of the test flow the session is finished, with four texts in
  its history, three turns done and no entity in its graph. A fourth answer is accepted:
  the history has five texts, \<open>turns_done\<close> is four, and the graph has two locations.
\<close>

theorem finished_session_accepts_answer:
  "map_option finished (fst flow_answer3 flow_sid) = Some True \<and>
   map_option query_history (fst flow_answer3 flow_sid)
     = Some [''robbery happened yesterday at my shop'', ''around 5pm yesterday'',
             ''in my electronics shop'', ''yes knife was used''] \<and>
   map_option turns_done (fst flow_answer3 flow_sid) = Some 3 \<and>
   map_option (\<lambda>s. entities (session_kg s)) (fst flow_answer3 flow_sid) = Some [] \<and>
   map_option query_history
       (fst (answer_session flow_now (fst flow_answer3) flow_sid ''It was in Mumbai'') flow_sid)
     = Some [''robbery happened yesterday at my shop'', ''around 5pm yesterday'',
             ''in my electronics shop'', ''yes knife was used'', ''It was in Mumbai''] \<and>
   map_option turns_done
       (fst (answer_session flow_now (fst flow_answer3) flow_sid ''It was in Mumbai'') flow_sid)
     = Some 4 \<and>
   map_option (\<lambda>s. entities (session_kg s))
       (fst (answer_session flow_now (fst flow_answer3) flow_sid ''It was in Mumbai'') flow_sid)
     = Some [(''locations'', [''It'', ''Mumbai''])]"
  by code_simp

text \<open>
  C7. \<open>answer_session\<close> raises the error \<open>session not found\<close> exactly when the identifier is
  not in the store. It raises no other error, and when it raises, the store, and with it
  every session, is unchanged. For an identifier in the store it returns a result: the
  error is a value handed to the caller, and every call returns.
\<close>

theorem answer_session_not_found:
  "(snd (answer_session now sessions sid answer) = Inl (KeyError ''session not found'')
      \<longleftrightarrow> sessions sid = None) \<and>
   (\<forall>e. snd (answer_session now sessions sid answer) = Inl e \<longrightarrow>
      e = KeyError ''session not found'' \<and> sessions sid = None \<and>
      fst (answer_session now sessions sid answer) = sessions) \<and>
   (sessions sid \<noteq> None \<longrightarrow> (\<exists>r. snd (answer_session now sessions sid answer) = Inr r))"
proof (cases "sessions sid")
  case None
  then show ?thesis by (simp add: answer_session_unknown)
next
  case (Some state)
  have "\<exists>r. snd (answer_session now sessions sid answer) = Inr r"
  proof (cases "turns_done state + 1 < max_turns state \<and>
      generate_next (session_case_type state) (session_kg (record_answer state answer)) (asked_questions state) \<noteq> None")
    case True
    then obtain q where q: "generate_next (session_case_type state) (session_kg (record_answer state answer)) (asked_questions state) = Some q"
      by auto
    from True have lt: "turns_done state + 1 < max_turns state" by simp
    show ?thesis by (simp add: answer_session_ask [where sessions = sessions and sid = sid, OF Some lt q])
  next
    case False
    show ?thesis by (simp add: answer_session_final [where sessions = sessions and sid = sid, OF Some False])
  qed
  with Some show ?thesis by auto
qed

theorem answer_session_not_found_witness:
  "answer_session flow_now Map.empty ''nonexistent-id'' ''x''
     = (Map.empty, Inl (KeyError ''session not found'')) \<and>
   (\<exists>r. snd flow_answer1 = Inr r)"
proof -
  have e: "(Map.empty :: store) ''nonexistent-id'' = None" by simp
  from answer_session_not_found [of flow_now Map.empty "''nonexistent-id''" "''x''"] e
  have 1: "answer_session flow_now Map.empty ''nonexistent-id'' ''x''
     = (Map.empty, Inl (KeyError ''session not found''))"
    by (metis prod.collapse)
  have "map_option turns_done (fst flow_started flow_sid) = Some 0"
    by code_simp
  then have k: "fst flow_started flow_sid \<noteq> None" by auto
  from answer_session_not_found [of flow_now "fst flow_started" flow_sid "''around 5pm yesterday''"] k
  have 2: "\<exists>r. snd flow_answer1 = Inr r"
    unfolding flow_answer1_def by blast
  from 1 2 show ?thesis by blast
qed

section \<open>Determinism\<close>







end
